theory Spec2Isabelle
  imports Complex_Main
begin

section \<open>JavaScript values\<close>

text \<open>
  A JavaScript string is a sequence of UTF-16 code units; \<open>trim\<close>, \<open>indexOf\<close>,
  \<open>lastIndexOf\<close> and \<open>slice\<close> all count code units. The spoken lines of
  \<^verbatim>\<open>src/app.js\<close> contain U+2019 (code unit 8217), so strings are lists of code units.
  \<open>str\<close> embeds an ASCII literal.
\<close>

type_synonym jsstr = "nat list"

definition str :: "string \<Rightarrow> jsstr" where
  "str cs = map of_char cs"

text \<open>
  A JavaScript number as far as the program looks at it: its truthiness and the comparison
  \<^verbatim>\<open>session.turns >= Number(MAX_TURNS)\<close>.
\<close>

datatype jsnum = Finite rat | PosInf | NegInf | NaN

fun num_truthy :: "jsnum \<Rightarrow> bool" where
  "num_truthy (Finite q) = (q \<noteq> 0)"
| "num_truthy PosInf = True"
| "num_truthy NegInf = True"
| "num_truthy NaN = False"

text \<open>\<^verbatim>\<open>t >= n\<close> for a counter \<open>t\<close>; every comparison with NaN is false.\<close>

fun ge_num :: "nat \<Rightarrow> jsnum \<Rightarrow> bool" where
  "ge_num t (Finite q) = (q \<le> of_nat t)"
| "ge_num t PosInf = False"
| "ge_num t NegInf = True"
| "ge_num t NaN = False"

text \<open>The values \<^verbatim>\<open>JSON.parse\<close> can return.\<close>

datatype json =
    JNull
  | JBool bool
  | JNum jsnum
  | JStr jsstr
  | JArr "json list"
  | JObj "(jsstr \<times> json) list"

text \<open>
  What a handler can throw: the TypeError of a property read on \<^verbatim>\<open>null\<close> or
  \<^verbatim>\<open>undefined\<close>, and the Error with which the markup library rejects a value.
\<close>

datatype js_error = TypeError | Error

fun truthy :: "json \<Rightarrow> bool" where
  "truthy JNull = False"
| "truthy (JBool b) = b"
| "truthy (JNum n) = num_truthy n"
| "truthy (JStr t) = (t \<noteq> [])"
| "truthy (JArr xs) = True"
| "truthy (JObj kvs) = True"

text \<open>A property read gives \<open>None\<close> for \<^verbatim>\<open>undefined\<close>, which is falsy.\<close>

fun truthy_opt :: "json option \<Rightarrow> bool" where
  "truthy_opt None = False"
| "truthy_opt (Some v) = truthy v"

text \<open>\<^verbatim>\<open>x || d\<close>\<close>

fun or_else :: "json option \<Rightarrow> json \<Rightarrow> json" where
  "or_else None d = d"
| "or_else (Some v) d = (if truthy v then v else d)"

text \<open>
  \<^verbatim>\<open>v.k\<close> for the keys the program reads (\<open>say\<close>, \<open>extracted\<close>, \<open>name\<close>,
  \<open>preferred_time\<close>): a TypeError on \<^verbatim>\<open>null\<close>, the own property of an object, and
  \<^verbatim>\<open>undefined\<close> on a boolean, number, string or array, whose prototypes have none of
  these keys.
\<close>

fun get_prop :: "json \<Rightarrow> jsstr \<Rightarrow> js_error + json option" where
  "get_prop JNull k = Inl TypeError"
| "get_prop (JObj kvs) k = Inr (map_of kvs k)"
| "get_prop (JBool b) k = Inr None"
| "get_prop (JNum n) k = Inr None"
| "get_prop (JStr t) k = Inr None"
| "get_prop (JArr xs) k = Inr None"

section \<open>String operations\<close>

text \<open>White space and line terminators, as \<^verbatim>\<open>String.prototype.trim\<close> strips them.\<close>

definition is_space :: "nat \<Rightarrow> bool" where
  "is_space c \<longleftrightarrow>
     c \<in> {9, 10, 11, 12, 13, 32, 160, 5760, 8232, 8233, 8239, 8287, 12288, 65279}
     \<or> (8192 \<le> c \<and> c \<le> 8202)"

definition trim :: "jsstr \<Rightarrow> jsstr" where
  "trim t = rev (dropWhile is_space (rev (dropWhile is_space t)))"

text \<open>\<^verbatim>\<open>t.indexOf(c)\<close> for a one-unit needle: the first position, or -1.\<close>

fun indexOf_from :: "nat \<Rightarrow> jsstr \<Rightarrow> nat \<Rightarrow> int" where
  "indexOf_from c [] i = - 1"
| "indexOf_from c (x # xs) i = (if x = c then int i else indexOf_from c xs (Suc i))"

definition indexOf :: "jsstr \<Rightarrow> nat \<Rightarrow> int" where
  "indexOf t c = indexOf_from c t 0"

text \<open>\<^verbatim>\<open>t.lastIndexOf(c)\<close>: the last position, or -1.\<close>

fun lastIndexOf_from :: "nat \<Rightarrow> jsstr \<Rightarrow> nat \<Rightarrow> int \<Rightarrow> int" where
  "lastIndexOf_from c [] i found = found"
| "lastIndexOf_from c (x # xs) i found =
     lastIndexOf_from c xs (Suc i) (if x = c then int i else found)"

definition lastIndexOf :: "jsstr \<Rightarrow> nat \<Rightarrow> int" where
  "lastIndexOf t c = lastIndexOf_from c t 0 (- 1)"

text \<open>\<^verbatim>\<open>t.slice(start, end)\<close>: negative indices count from the end, both are clamped.\<close>

definition slice :: "jsstr \<Rightarrow> int \<Rightarrow> int \<Rightarrow> jsstr" where
  "slice t start end' =
     (let len = int (length t);
          from = (if start < 0 then max (len + start) 0 else min start len);
          to = (if end' < 0 then max (len + end') 0 else min end' len)
      in if from < to then take (nat (to - from)) (drop (nat from) t) else [])"

section \<open>Sessions\<close>

text \<open>
  A session object \<^verbatim>\<open>{ turns, name, preferred_time, booked }\<close>. A property that was never
  assigned is \<open>None\<close> (\<open>False\<close> for \<open>booked\<close>, which is only ever assigned \<^verbatim>\<open>true\<close>).
\<close>

record session =
  turns :: nat
  name :: "json option"
  preferred_time :: "json option"
  booked :: bool

text \<open>
  The \<^verbatim>\<open>Map\<close> from CallSid to session. \<^verbatim>\<open>req.body.CallSid\<close> is a string, or
  \<^verbatim>\<open>undefined\<close> (\<open>None\<close>) when the form has no such field; both are keys.
\<close>

type_synonym sessions = "jsstr option \<rightharpoonup> session"

definition s :: "jsstr option \<Rightarrow> sessions \<Rightarrow> session \<times> sessions" where
  "s callSid sessions =
     (case sessions callSid of
        None \<Rightarrow>
          (let fresh = \<lparr>turns = 0, name = None, preferred_time = None, booked = False\<rparr>
           in (fresh, sessions(callSid \<mapsto> fresh)))
      | Some session \<Rightarrow> (session, sessions))"

section \<open>The extraction call\<close>

text \<open>
  What \<^verbatim>\<open>await openai.responses.create(...)\<close> does in one turn: it throws (network error,
  timeout, rejected request), or it returns a response whose \<^verbatim>\<open>output_text\<close> is a string
  or missing.
\<close>

datatype api_result = ApiThrows | ApiReturns "jsstr option"

definition SAY :: jsstr where "SAY = str ''say''"
definition EXTRACTED :: jsstr where "EXTRACTED = str ''extracted''"
definition NAME :: jsstr where "NAME = str ''name''"
definition PREFERRED_TIME :: jsstr where "PREFERRED_TIME = str ''preferred_time''"

definition LBRACE :: nat where "LBRACE = 123"
definition RBRACE :: nat where "RBRACE = 125"

definition FALLBACK :: json where
  "FALLBACK =
     JObj [(SAY, JStr (str ''Thanks. What day and time works best for you?'')),
           (EXTRACTED, JObj [])]"

text \<open>
  \<open>agentReply\<close> of \<^verbatim>\<open>src/app.js\<close>. \<open>parse\<close> is \<^verbatim>\<open>JSON.parse\<close>, a builtin of the
  runtime and so a parameter here: \<open>None\<close> when it throws a SyntaxError. The \<open>session\<close>
  argument is unused, as in the source. Everything runs inside \<^verbatim>\<open>try\<close>, and the
  \<^verbatim>\<open>catch\<close> returns the fallback object.
\<close>

definition agentReply ::
  "(jsstr \<Rightarrow> json option) \<Rightarrow> api_result \<Rightarrow> jsstr \<Rightarrow> session \<Rightarrow> json" where
  "agentReply parse api userText session =
     (case api of
        ApiThrows \<Rightarrow> FALLBACK
      | ApiReturns output_text \<Rightarrow>
          (let text = trim (case output_text of None \<Rightarrow> [] | Some t \<Rightarrow> t);
               a = indexOf text LBRACE;
               b = lastIndexOf text RBRACE;
               raw = (if a \<ge> 0 \<and> b \<ge> 0 then slice text a (b + 1) else text)
           in case parse raw of None \<Rightarrow> FALLBACK | Some v \<Rightarrow> v))"

section \<open>Responses\<close>

text \<open>
  The TwiML document a handler builds, verb by verb: \<open>Dial\<close> with its timeout, action
  path and number; \<open>Gather\<close> with its action path and the lines said inside it. \<open>Say\<close>
  carries the text that is spoken; \<open>SayEmpty\<close> is a \<^verbatim>\<open><Say/>\<close> element without text,
  which speaks nothing.
\<close>

datatype verb =
    Say jsstr
  | SayEmpty
  | Hangup
  | Redirect jsstr
  | Dial nat jsstr jsstr
  | Gather jsstr "jsstr list"

definition GATHER_PATH :: jsstr where "GATHER_PATH = str ''/voice/gather''"
definition HANDLE_PATH :: jsstr where "HANDLE_PATH = str ''/voice/handle''"
definition AFTER_TRANSFER_PATH :: jsstr where
  "AFTER_TRANSFER_PATH = str ''/voice/after-transfer-attempt''"

definition MSG_TIED_UP :: jsstr where
  "MSG_TIED_UP = str ''The team is tied up. I can schedule you right now.''"
definition MSG_CLOSING :: jsstr where
  "MSG_CLOSING = str ''Thanks. I'' @ [8217] @ str ''ll have the team call you back shortly. Goodbye.''"
definition MSG_ASK_BOTH :: jsstr where
  "MSG_ASK_BOTH = str ''Tell me your name and the best day and time to come in.''"
definition MSG_ASK_NAME :: jsstr where
  "MSG_ASK_NAME = str ''What is your name?''"
definition MSG_ASK_TIME :: jsstr where
  "MSG_ASK_TIME = str ''What day and time works best?''"
definition MSG_ONE_MOMENT :: jsstr where
  "MSG_ONE_MOMENT = str ''One moment.''"
definition MSG_NO_CATCH :: jsstr where
  "MSG_NO_CATCH = str ''I didn'' @ [8217] @ str ''t catch that.''"
definition MSG_OKAY :: jsstr where
  "MSG_OKAY = str ''Okay.''"
definition MSG_CONFIRM :: jsstr where
  "MSG_CONFIRM =
     str ''You'' @ [8217] @ str ''re all set. We'' @ [8217] @ str ''ll text you to confirm. Goodbye.''"
definition MSG_APOLOGY :: jsstr where
  "MSG_APOLOGY =
     str ''I apologize, but something went wrong. A team member will call you back shortly.''"

text \<open>
  The abstract response of the specification, read off the document: the lines spoken,
  and the action the call takes when the document has been played. A redirect to
  \<^verbatim>\<open>/voice/gather\<close> is the way back to listening.
\<close>

datatype action = LISTEN | TRANSFER | HANGUP

fun speak_list :: "verb list \<Rightarrow> jsstr list" where
  "speak_list [] = []"
| "speak_list (Say x # vs) = x # speak_list vs"
| "speak_list (SayEmpty # vs) = speak_list vs"
| "speak_list (Gather act inner # vs) = inner @ speak_list vs"
| "speak_list (Hangup # vs) = speak_list vs"
| "speak_list (Redirect p # vs) = speak_list vs"
| "speak_list (Dial t act n # vs) = speak_list vs"

fun next_action :: "verb list \<Rightarrow> action option" where
  "next_action [] = None"
| "next_action (Say x # vs) = next_action vs"
| "next_action (SayEmpty # vs) = next_action vs"
| "next_action (Gather act inner # vs) = next_action vs"
| "next_action (Hangup # vs) = Some HANGUP"
| "next_action (Redirect p # vs) = (if p = GATHER_PATH then Some LISTEN else None)"
| "next_action (Dial t act n # vs) = Some TRANSFER"

definition well_formed :: "verb list \<Rightarrow> bool" where
  "well_formed vs \<longleftrightarrow> speak_list vs \<noteq> [] \<and> next_action vs \<noteq> None"

section \<open>The webhook handlers\<close>

text \<open>
  The form fields a handler reads from \<^verbatim>\<open>req.body\<close>; \<open>None\<close> is a missing field.
\<close>

record request =
  CallSid :: "jsstr option"
  SpeechResult :: "jsstr option"
  DialCallStatus :: "jsstr option"

text \<open>
  The configuration: \<^verbatim>\<open>OFFICE_TRANSFER_NUMBER\<close> (a string or unset) and the value of
  \<^verbatim>\<open>Number(MAX_TURNS)\<close>, which is 6 when the variable is unset.
\<close>

record config =
  OFFICE_TRANSFER_NUMBER :: "jsstr option"
  MAX_TURNS :: jsnum

text \<open>
  What one request does: the document sent (\<open>Inl\<close> when the handler throws and sends
  none), the session map afterwards, and the user texts sent to the extraction service.
\<close>

record outcome =
  reply :: "js_error + verb list"
  store :: sessions
  calls :: "jsstr list"

text \<open>
  \<^verbatim>\<open>POST /voice/initial\<close>. Without a transfer number the handler evaluates
  \<^verbatim>\<open>twiml.saytwiml.say(...)\<close>; a VoiceResponse has no property \<open>saytwiml\<close>, so the read
  of \<open>say\<close> on \<^verbatim>\<open>undefined\<close> throws, outside any \<^verbatim>\<open>try\<close>.
\<close>

definition voice_initial :: "config \<Rightarrow> request \<Rightarrow> sessions \<Rightarrow> outcome" where
  "voice_initial cfg req sessions =
     (let callSid = CallSid req;
          (session, sessions1) = s callSid sessions
      in case OFFICE_TRANSFER_NUMBER cfg of
           Some number \<Rightarrow>
             if number \<noteq> []
             then \<lparr>reply = Inr [Dial 10 AFTER_TRANSFER_PATH number],
                   store = sessions1, calls = []\<rparr>
             else \<lparr>reply = Inl TypeError, store = sessions1, calls = []\<rparr>
         | None \<Rightarrow> \<lparr>reply = Inl TypeError, store = sessions1, calls = []\<rparr>)"

text \<open>\<^verbatim>\<open>POST /voice/after-transfer-attempt\<close>\<close>

definition voice_after_transfer_attempt :: "request \<Rightarrow> sessions \<Rightarrow> outcome" where
  "voice_after_transfer_attempt req sessions =
     (let status = DialCallStatus req
      in if status = Some (str ''completed'')
         then \<lparr>reply = Inr [Hangup], store = sessions, calls = []\<rparr>
         else \<lparr>reply = Inr [Say MSG_TIED_UP, Redirect GATHER_PATH],
               store = sessions, calls = []\<rparr>)"

text \<open>\<^verbatim>\<open>POST /voice/gather\<close>\<close>

definition voice_gather :: "config \<Rightarrow> request \<Rightarrow> sessions \<Rightarrow> outcome" where
  "voice_gather cfg req sessions =
     (let callSid = CallSid req;
          (session, sessions1) = s callSid sessions
      in if ge_num (turns session) (MAX_TURNS cfg)
         then \<lparr>reply = Inr [Say MSG_CLOSING, Hangup], store = sessions1, calls = []\<rparr>
         else
           (let prompt =
                  (if \<not> truthy_opt (name session) \<and> \<not> truthy_opt (preferred_time session)
                   then MSG_ASK_BOTH
                   else if \<not> truthy_opt (name session) then MSG_ASK_NAME
                   else if \<not> truthy_opt (preferred_time session) then MSG_ASK_TIME
                   else MSG_ONE_MOMENT)
            in \<lparr>reply = Inr [Gather HANDLE_PATH [prompt], Redirect GATHER_PATH],
                 store = sessions1, calls = []\<rparr>))"

text \<open>
  \<^verbatim>\<open>POST /voice/handle\<close>. The body runs inside \<^verbatim>\<open>try\<close>; \<open>caught\<close> is the
  \<^verbatim>\<open>catch\<close> block, which adds the apology and the hangup to the document built so
  far. Two steps can throw: the read of \<open>extracted\<close> on a reply that is \<^verbatim>\<open>null\<close>, and
  \<^verbatim>\<open>twiml.say(cmd.say || "Okay.")\<close> on a value the library rejects. Both come before
  anything is added to the document, so it is still empty there. The session object is
  updated in place, so what was assigned before a throw stays: when \<^verbatim>\<open>twiml.say\<close>
  throws, the merge and the booking flag have already been written.

  The handler suspends once, at \<^verbatim>\<open>await agentReply(...)\<close>. Before that point it only
  counts the turn; the merge, the booking flag and the document come after it, in one
  uninterrupted run that reads the session afresh. Two requests of one call that overlap
  therefore leave the session as if they had been handled one after the other, in the
  order in which their extraction calls return, and the model handles requests one at a
  time.
\<close>

definition caught :: "verb list \<Rightarrow> verb list" where
  "caught twiml = twiml @ [Say MSG_APOLOGY, Hangup]"

text \<open>
  What \<^verbatim>\<open>twiml.say(v)\<close> of the markup library does with a value \<open>v\<close> that comes from
  the reply of the extraction service. The library is not part of the repository, so
  this is a parameter \<open>twiml_say\<close> of the model: \<open>Inl\<close> when the call throws, as it does
  for an array or for a string with a character that XML does not allow; otherwise the
  \<^verbatim>\<open>Say\<close> element it adds, with the text that will be spoken (\<open>Some\<close>) or with none
  (\<open>None\<close>), as for an object, which the library takes for the attributes of the
  element. The fixed lines of the source are plain strings, taken as they are.

  \<open>say_line\<close> is \<^verbatim>\<open>twiml.say(cmd.say || "Okay.")\<close>: the fixed line when \<^verbatim>\<open>cmd.say\<close> is
  missing or falsy, and what the library does with \<^verbatim>\<open>cmd.say\<close> otherwise.
\<close>

type_synonym say_lib = "json \<Rightarrow> js_error + jsstr option"

fun say_line :: "say_lib \<Rightarrow> json option \<Rightarrow> js_error + jsstr option" where
  "say_line twiml_say None = Inr (Some MSG_OKAY)"
| "say_line twiml_say (Some v) = (if truthy v then twiml_say v else Inr (Some MSG_OKAY))"

fun say_verb :: "jsstr option \<Rightarrow> verb" where
  "say_verb (Some line) = Say line"
| "say_verb None = SayEmpty"

definition voice_handle ::
  "say_lib \<Rightarrow> (jsstr \<Rightarrow> json option) \<Rightarrow> api_result \<Rightarrow> request \<Rightarrow> sessions \<Rightarrow> outcome" where
  "voice_handle twiml_say parse api req sessions =
     (let callSid = CallSid req;
          (session, sessions1) = s callSid sessions;
          speech = trim (case SpeechResult req of None \<Rightarrow> [] | Some t \<Rightarrow> t);
          session1 = session\<lparr>turns := turns session + 1\<rparr>
      in if speech = []
         then \<lparr>reply = Inr [Say MSG_NO_CATCH, Redirect GATHER_PATH],
               store = sessions1(callSid \<mapsto> session1), calls = []\<rparr>
         else
           (let cmd = agentReply parse api speech session1
            in case get_prop cmd EXTRACTED of
                 Inl err \<Rightarrow>
                   \<lparr>reply = Inr (caught []), store = sessions1(callSid \<mapsto> session1),
                    calls = [speech]\<rparr>
               | Inr extracted \<Rightarrow>
                   (let ex = or_else extracted (JObj [])
                    in case get_prop ex NAME of
                         Inl err \<Rightarrow>
                           \<lparr>reply = Inr (caught []), store = sessions1(callSid \<mapsto> session1),
                            calls = [speech]\<rparr>
                       | Inr ex_name \<Rightarrow>
                           (let session2 =
                                  (if truthy_opt ex_name then session1\<lparr>name := ex_name\<rparr>
                                   else session1)
                            in case get_prop ex PREFERRED_TIME of
                                 Inl err \<Rightarrow>
                                   \<lparr>reply = Inr (caught []),
                                    store = sessions1(callSid \<mapsto> session2), calls = [speech]\<rparr>
                               | Inr ex_time \<Rightarrow>
                                   (let session3 =
                                          (if truthy_opt ex_time
                                           then session2\<lparr>preferred_time := ex_time\<rparr>
                                           else session2);
                                        session4 =
                                          (if truthy_opt (name session3)
                                              \<and> truthy_opt (preferred_time session3)
                                           then session3\<lparr>booked := True\<rparr>
                                           else session3)
                                    in case get_prop cmd SAY of
                                         Inl err \<Rightarrow>
                                           \<lparr>reply = Inr (caught []),
                                            store = sessions1(callSid \<mapsto> session4),
                                            calls = [speech]\<rparr>
                                       | Inr cmd_say \<Rightarrow>
                                           (case say_line twiml_say cmd_say of
                                              Inl err \<Rightarrow>
                                                \<lparr>reply = Inr (caught []),
                                                 store = sessions1(callSid \<mapsto> session4),
                                                 calls = [speech]\<rparr>
                                            | Inr line \<Rightarrow>
                                                (let twiml = [say_verb line]
                                                 in \<lparr>reply =
                                                        Inr (twiml @
                                                          (if booked session4
                                                           then [Say MSG_CONFIRM, Hangup]
                                                           else [Redirect GATHER_PATH])),
                                                      store = sessions1(callSid \<mapsto> session4),
                                                      calls = [speech]\<rparr>)))))))"

section \<open>Calls as sequences of requests\<close>

datatype event =
    Initial request
  | AfterTransferAttempt request
  | GatherSpeech request
  | HandleSpeech api_result request

fun step ::
  "config \<Rightarrow> say_lib \<Rightarrow> (jsstr \<Rightarrow> json option) \<Rightarrow> event \<Rightarrow> sessions \<Rightarrow> outcome" where
  "step cfg twiml_say parse (Initial req) sessions = voice_initial cfg req sessions"
| "step cfg twiml_say parse (AfterTransferAttempt req) sessions = voice_after_transfer_attempt req sessions"
| "step cfg twiml_say parse (GatherSpeech req) sessions = voice_gather cfg req sessions"
| "step cfg twiml_say parse (HandleSpeech api req) sessions = voice_handle twiml_say parse api req sessions"

fun run ::
  "config \<Rightarrow> say_lib \<Rightarrow> (jsstr \<Rightarrow> json option) \<Rightarrow> event list \<Rightarrow> sessions \<Rightarrow> sessions" where
  "run cfg twiml_say parse [] sessions = sessions"
| "run cfg twiml_say parse (e # es) sessions = run cfg twiml_say parse es (store (step cfg twiml_say parse e sessions))"

text \<open>The session maps a process can be in: it starts with an empty map.\<close>

inductive reachable ::
  "config \<Rightarrow> say_lib \<Rightarrow> (jsstr \<Rightarrow> json option) \<Rightarrow> sessions \<Rightarrow> bool"
  for cfg twiml_say parse where
  reach_start: "reachable cfg twiml_say parse Map.empty"
| reach_step: "reachable cfg twiml_say parse sessions \<Longrightarrow> reachable cfg twiml_say parse (store (step cfg twiml_say parse e sessions))"

text \<open>
  The part of \<^verbatim>\<open>JSON.parse\<close> that the examples below use, as a table from text to
  value; every other text is left unparsed in them.
\<close>

definition parse_table :: "(jsstr \<times> json) list \<Rightarrow> jsstr \<Rightarrow> json option" where
  "parse_table tab raw = map_of tab raw"

section \<open>Notions used to state the properties\<close>

text \<open>The value a property read yields where it does not throw.\<close>

definition prop_of :: "json \<Rightarrow> jsstr \<Rightarrow> json option" where
  "prop_of v k = (case get_prop v k of Inl err \<Rightarrow> None | Inr r \<Rightarrow> r)"

text \<open>The trimmed speech of a request, and the session a handler works on.\<close>

definition speech_of :: "request \<Rightarrow> jsstr" where
  "speech_of req = trim (case SpeechResult req of None \<Rightarrow> [] | Some t \<Rightarrow> t)"

definition session_of :: "sessions \<Rightarrow> jsstr option \<Rightarrow> session" where
  "session_of sessions c = fst (s c sessions)"

text \<open>\<^verbatim>\<open>cmd.extracted || {}\<close>\<close>

definition ex_of :: "json \<Rightarrow> json" where
  "ex_of cmd = or_else (prop_of cmd EXTRACTED) (JObj [])"

text \<open>A field after a merge: a truthy reported value replaces the stored one.\<close>

definition merged :: "json option \<Rightarrow> json option \<Rightarrow> json option" where
  "merged cur new = (if truthy_opt new then new else cur)"

text \<open>
  The session \<^verbatim>\<open>/voice/handle\<close> leaves behind, as a function of the session it found:
  the turn is counted; when there is speech and the reply is an object, the merge and the
  booking flag follow. Lemma \<open>handle_store\<close> shows that this is what the handler stores.
\<close>

definition after_handle ::
  "(jsstr \<Rightarrow> json option) \<Rightarrow> api_result \<Rightarrow> request \<Rightarrow> session \<Rightarrow> session" where
  "after_handle parse api req old =
     (let cmd = agentReply parse api (speech_of req) old
      in if speech_of req = [] \<or> cmd = JNull then old\<lparr>turns := turns old + 1\<rparr>
         else
           (let nm = merged (name old) (prop_of (ex_of cmd) NAME);
                tm = merged (preferred_time old) (prop_of (ex_of cmd) PREFERRED_TIME)
            in old\<lparr>turns := turns old + 1, name := nm, preferred_time := tm,
                   booked := booked old \<or> (truthy_opt nm \<and> truthy_opt tm)\<rparr>))"

text \<open>
  The pair \<^verbatim>\<open>(ex.name, ex.preferred_time)\<close> that a request merges into the session of
  call \<open>c\<close>: only a speech turn of that call with speech and a reply that is not
  \<^verbatim>\<open>null\<close> gets as far as the merge.
\<close>

fun seen ::
  "(jsstr \<Rightarrow> json option) \<Rightarrow> jsstr option \<Rightarrow> event \<Rightarrow> (json option \<times> json option) option" where
  "seen parse c (HandleSpeech api req) =
     (let cmd = agentReply parse api (speech_of req)
                  \<lparr>turns = 0, name = None, preferred_time = None, booked = False\<rparr>
      in if CallSid req = c \<and> speech_of req \<noteq> [] \<and> cmd \<noteq> JNull
         then Some (prop_of (ex_of cmd) NAME, prop_of (ex_of cmd) PREFERRED_TIME)
         else None)"
| "seen parse c (Initial req) = None"
| "seen parse c (AfterTransferAttempt req) = None"
| "seen parse c (GatherSpeech req) = None"

text \<open>A field after a sequence of merges.\<close>

fun last_write :: "json option \<Rightarrow> json option list \<Rightarrow> json option" where
  "last_write cur [] = cur"
| "last_write cur (v # vs) = last_write (merged cur v) vs"

text \<open>
  The invariant of a session: booked exactly when both fields are truthy, and a field
  that is set is truthy.
\<close>

definition session_ok :: "session \<Rightarrow> bool" where
  "session_ok x \<longleftrightarrow>
     (booked x \<longleftrightarrow> truthy_opt (name x) \<and> truthy_opt (preferred_time x))
     \<and> (name x = None \<or> truthy_opt (name x))
     \<and> (preferred_time x = None \<or> truthy_opt (preferred_time x))"

text \<open>The text \<open>agentReply\<close> hands to \<^verbatim>\<open>JSON.parse\<close> for a given \<^verbatim>\<open>output_text\<close>.\<close>

definition candidate :: "jsstr option \<Rightarrow> jsstr" where
  "candidate output_text =
     (let text = trim (case output_text of None \<Rightarrow> [] | Some t \<Rightarrow> t);
          a = indexOf text LBRACE;
          b = lastIndexOf text RBRACE
      in if a \<ge> 0 \<and> b \<ge> 0 then slice text a (b + 1) else text)"

section \<open>Example inputs\<close>

text \<open>
  Replies of the extraction service used in the examples, and what \<^verbatim>\<open>JSON.parse\<close>
  returns on each of them.
\<close>

definition TEXT_DANA :: jsstr where
  "TEXT_DANA = str ''{\"say\":\"Thanks, Dana.\",\"extracted\":{\"name\":\"Dana\"}}''"
definition TEXT_BOB :: jsstr where
  "TEXT_BOB = str ''{\"say\":\"Thanks, Bob.\",\"extracted\":{\"name\":\"Bob\"}}''"
definition TEXT_TIME :: jsstr where
  "TEXT_TIME = str ''{\"say\":\"Tuesday at 3pm works.\",\"extracted\":{\"name\":\"\",\"preferred_time\":\"Tuesday at 3pm\"}}''"
definition TEXT_NO_SAY :: jsstr where
  "TEXT_NO_SAY = str ''{\"extracted\":{}}''"
definition TEXT_NUMBER :: jsstr where
  "TEXT_NUMBER = str ''42''"
definition TEXT_NAME_42 :: jsstr where
  "TEXT_NAME_42 = str ''{\"say\":\"Ok.\",\"extracted\":{\"name\":42}}''"
definition TEXT_NULL :: jsstr where
  "TEXT_NULL = str ''null''"
definition TEXT_ARRAY_SAY :: jsstr where
  "TEXT_ARRAY_SAY = str ''{\"say\":[\"Tuesday works.\"],\"extracted\":{\"preferred_time\":\"Tuesday at 3pm\"}}''"
definition TEXT_EMPTY_SAY :: jsstr where
  "TEXT_EMPTY_SAY = str ''{\"say\":{},\"extracted\":{}}''"

definition parse_examples :: "jsstr \<Rightarrow> json option" where
  "parse_examples =
     parse_table
       [(TEXT_DANA,
           JObj [(SAY, JStr (str ''Thanks, Dana.'')),
                 (EXTRACTED, JObj [(NAME, JStr (str ''Dana''))])]),
        (TEXT_BOB,
           JObj [(SAY, JStr (str ''Thanks, Bob.'')),
                 (EXTRACTED, JObj [(NAME, JStr (str ''Bob''))])]),
        (TEXT_TIME,
           JObj [(SAY, JStr (str ''Tuesday at 3pm works.'')),
                 (EXTRACTED, JObj [(NAME, JStr []),
                                   (PREFERRED_TIME, JStr (str ''Tuesday at 3pm''))])]),
        (TEXT_NO_SAY, JObj [(EXTRACTED, JObj [])]),
        (TEXT_NUMBER, JNum (Finite 42)),
        (TEXT_NAME_42,
           JObj [(SAY, JStr (str ''Ok.'')),
                 (EXTRACTED, JObj [(NAME, JNum (Finite 42))])]),
        (TEXT_NULL, JNull),
        (TEXT_ARRAY_SAY,
           JObj [(SAY, JArr [JStr (str ''Tuesday works.'')]),
                 (EXTRACTED, JObj [(PREFERRED_TIME, JStr (str ''Tuesday at 3pm''))])]),
        (TEXT_EMPTY_SAY, JObj [(SAY, JObj []), (EXTRACTED, JObj [])])]"

text \<open>
  What the markup library does with the values that the examples hand to it: a string
  of printable ASCII characters is spoken as it is, the empty object gives a
  \<^verbatim>\<open>Say\<close> element without text, and an array makes \<^verbatim>\<open>twiml.say\<close> throw. No other
  value occurs in the examples.
\<close>

fun say_examples :: say_lib where
  "say_examples (JStr t) =
     (if list_all (\<lambda>c. 32 \<le> c \<and> c \<le> 126) t then Inr (Some t) else Inl Error)"
| "say_examples (JObj []) = Inr None"
| "say_examples other = Inl Error"

definition CA1 :: "jsstr option" where "CA1 = Some (str ''CA1'')"

definition said :: "string \<Rightarrow> request" where
  "said words = \<lparr>CallSid = CA1, SpeechResult = Some (str words), DialCallStatus = None\<rparr>"

definition cfg_default :: config where
  "cfg_default = \<lparr>OFFICE_TRANSFER_NUMBER = None, MAX_TURNS = Finite 6\<rparr>"

text \<open>The session map after the caller of call \<open>CA1\<close> has given the name Dana.\<close>

definition named_dana :: sessions where
  "named_dana =
     [CA1 \<mapsto> \<lparr>turns = 1, name = Some (JStr (str ''Dana'')), preferred_time = None,
               booked = False\<rparr>]"

text \<open>A field that holds a non-empty string.\<close>

fun nonempty_string :: "json option \<Rightarrow> bool" where
  "nonempty_string (Some (JStr t)) = (t \<noteq> [])"
| "nonempty_string other = False"

text \<open>
  The substring from the first \<open>{\<close> to the last \<open>}\<close> of a text, in the words of the
  specification: drop what follows the last \<open>}\<close>, then what precedes the first \<open>{\<close>.
\<close>

definition first_to_last_brace :: "jsstr \<Rightarrow> jsstr" where
  "first_to_last_brace text =
     dropWhile (\<lambda>x. x \<noteq> LBRACE) (rev (dropWhile (\<lambda>x. x \<noteq> RBRACE) (rev text)))"

definition TEXT_WRAPPED :: jsstr where
  "TEXT_WRAPPED = str '' Here you go: '' @ TEXT_DANA @ str '' Anything else? ''"

definition TEXT_PROSE :: jsstr where
  "TEXT_PROSE = str ''Sorry, I did not understand.''"

section \<open>The session store\<close>

lemma s_pair: "s c sessions = (session_of sessions c, snd (s c sessions))"
  by (simp add: session_of_def)

lemma s_store: "snd (s c sessions) c = Some (session_of sessions c)"
  by (simp add: s_def session_of_def Let_def split: option.splits)


lemma session_of_Some: "sessions c = Some x \<Longrightarrow> session_of sessions c = x"
  by (simp add: session_of_def s_def)

lemma session_of_None:
  "sessions c = None \<Longrightarrow>
   session_of sessions c = \<lparr>turns = 0, name = None, preferred_time = None, booked = False\<rparr>"
  by (simp add: session_of_def s_def Let_def)

text \<open>
  C8. The lookup \<open>s\<close> returns the stored session of a call identifier when there is
  one and leaves the map as it is; otherwise it stores and returns a session with
  \<open>turns = 0\<close>, no name, no preferred time and not booked. It has no failing case, it
  touches no other key, and a second lookup of the same identifier returns the session
  of the first one, whatever state that session is in, without resetting it.
\<close>

theorem s_get_or_create:
  "(\<forall>x. sessions c = Some x \<longrightarrow> s c sessions = (x, sessions))
   \<and> (sessions c = None \<longrightarrow>
        s c sessions =
          (\<lparr>turns = 0, name = None, preferred_time = None, booked = False\<rparr>,
           sessions(c \<mapsto> \<lparr>turns = 0, name = None, preferred_time = None, booked = False\<rparr>)))
   \<and> (\<exists>x st. s c sessions = (x, st) \<and> st c = Some x \<and> s c st = (x, st)
        \<and> (\<forall>c'. c' \<noteq> c \<longrightarrow> st c' = sessions c'))"
  by (cases "sessions c") (simp_all add: s_def Let_def)

theorem s_get_or_create_witness:
  "s (Some (str ''CA1'')) Map.empty =
     (\<lparr>turns = 0, name = None, preferred_time = None, booked = False\<rparr>,
      [Some (str ''CA1'') \<mapsto> \<lparr>turns = 0, name = None, preferred_time = None, booked = False\<rparr>])
   \<and> s (Some (str ''CA1''))
        [Some (str ''CA1'') \<mapsto>
           \<lparr>turns = 2, name = Some (JStr (str ''Dana'')), preferred_time = None, booked = False\<rparr>] =
       (\<lparr>turns = 2, name = Some (JStr (str ''Dana'')), preferred_time = None, booked = False\<rparr>,
        [Some (str ''CA1'') \<mapsto>
           \<lparr>turns = 2, name = Some (JStr (str ''Dana'')), preferred_time = None, booked = False\<rparr>])"
  using s_get_or_create [of Map.empty "Some (str ''CA1'')"]
    s_get_or_create [of "[Some (str ''CA1'') \<mapsto>
           \<lparr>turns = 2, name = Some (JStr (str ''Dana'')), preferred_time = None, booked = False\<rparr>]"
        "Some (str ''CA1'')"]
  by simp

section \<open>The transfer outcome\<close>

text \<open>
  C7. On the transfer-outcome callback, the status \<open>completed\<close> gives a document that
  only hangs up: nothing is spoken and no dialogue is entered. Every other status, a
  missing one included, gives the line that starts with "The team is tied up" and then
  the redirect into the gathering dialogue. Neither touches the sessions or calls the
  extraction service.
\<close>

theorem transfer_outcome:
  "(DialCallStatus req = Some (str ''completed'') \<longrightarrow>
      reply (voice_after_transfer_attempt req sessions) = Inr [Hangup])
   \<and> (DialCallStatus req \<noteq> Some (str ''completed'') \<longrightarrow>
      reply (voice_after_transfer_attempt req sessions) =
        Inr [Say MSG_TIED_UP, Redirect GATHER_PATH]
      \<and> next_action [Say MSG_TIED_UP, Redirect GATHER_PATH] = Some LISTEN)
   \<and> next_action [Hangup] = Some HANGUP \<and> speak_list [Hangup] = []
   \<and> take 19 MSG_TIED_UP = str ''The team is tied up''
   \<and> store (voice_after_transfer_attempt req sessions) = sessions
   \<and> calls (voice_after_transfer_attempt req sessions) = []"
  by (simp add: voice_after_transfer_attempt_def MSG_TIED_UP_def str_def)

theorem transfer_outcome_witness:
  "reply (voice_after_transfer_attempt
      \<lparr>CallSid = Some (str ''CA1''), SpeechResult = None,
       DialCallStatus = Some (str ''completed'')\<rparr> Map.empty) = Inr [Hangup]
   \<and> reply (voice_after_transfer_attempt
      \<lparr>CallSid = Some (str ''CA1''), SpeechResult = None,
       DialCallStatus = Some (str ''no-answer'')\<rparr> Map.empty) =
     Inr [Say MSG_TIED_UP, Redirect GATHER_PATH]"
  using transfer_outcome [of "\<lparr>CallSid = Some (str ''CA1''), SpeechResult = None,
       DialCallStatus = Some (str ''completed'')\<rparr>" Map.empty]
    transfer_outcome [of "\<lparr>CallSid = Some (str ''CA1''), SpeechResult = None,
       DialCallStatus = Some (str ''no-answer'')\<rparr>" Map.empty]
  by (simp add: str_def)

section \<open>The speech handler, case by case\<close>

lemma get_prop_Inr: "v \<noteq> JNull \<Longrightarrow> get_prop v k = Inr (prop_of v k)"
  by (cases v) (simp_all add: prop_of_def)

lemma ex_of_not_null: "ex_of cmd \<noteq> JNull"
  by (cases "prop_of cmd EXTRACTED") (auto simp: ex_of_def)

lemma agentReply_session: "agentReply parse api u x = agentReply parse api u y"
  by (simp add: agentReply_def)

lemma handle_empty:
  assumes "s (CallSid req) sessions = (old, st1)" and "speech_of req = []"
  shows "voice_handle twiml_say parse api req sessions =
    \<lparr>reply = Inr [Say MSG_NO_CATCH, Redirect GATHER_PATH],
     store = st1(CallSid req \<mapsto> old\<lparr>turns := turns old + 1\<rparr>),
     calls = []\<rparr>"
  using assms
  by (simp add: voice_handle_def speech_of_def Let_def)

lemma handle_null:
  assumes "s (CallSid req) sessions = (old, st1)" and "speech_of req \<noteq> []"
    and "agentReply parse api (speech_of req) (old\<lparr>turns := turns old + 1\<rparr>) = JNull"
  shows "voice_handle twiml_say parse api req sessions =
    \<lparr>reply = Inr [Say MSG_APOLOGY, Hangup],
     store = st1(CallSid req \<mapsto> old\<lparr>turns := turns old + 1\<rparr>),
     calls = [speech_of req]\<rparr>"
  using assms
  by (simp add: voice_handle_def speech_of_def Let_def caught_def)

lemma handle_merge:
  assumes "s (CallSid req) sessions = (old, st1)" and "speech_of req \<noteq> []"
    and "agentReply parse api (speech_of req) (old\<lparr>turns := turns old + 1\<rparr>) = cmd"
    and "cmd \<noteq> JNull"
  shows "voice_handle twiml_say parse api req sessions =
    (let nm = merged (name old) (prop_of (ex_of cmd) NAME);
         tm = merged (preferred_time old) (prop_of (ex_of cmd) PREFERRED_TIME);
         bk = (booked old \<or> (truthy_opt nm \<and> truthy_opt tm))
     in \<lparr>reply =
           Inr (case say_line twiml_say (prop_of cmd SAY) of
                  Inl err \<Rightarrow> [Say MSG_APOLOGY, Hangup]
                | Inr line \<Rightarrow>
                    say_verb line #
                    (if bk then [Say MSG_CONFIRM, Hangup] else [Redirect GATHER_PATH])),
     store = st1(CallSid req \<mapsto>
        old\<lparr>turns := turns old + 1, name := nm, preferred_time := tm, booked := bk\<rparr>),
     calls = [speech_of req]\<rparr>)"
proof -
  have ex: "get_prop (ex_of cmd) k = Inr (prop_of (ex_of cmd) k)" for k
    by (rule get_prop_Inr) (rule ex_of_not_null)
  have c: "get_prop cmd k = Inr (prop_of cmd k)" for k
    by (rule get_prop_Inr) (rule assms(4))
  have exo: "or_else (prop_of cmd EXTRACTED) (JObj []) = ex_of cmd"
    by (simp add: ex_of_def)
  show ?thesis
    using assms(1-3)
    by (cases old)
      (auto simp add: voice_handle_def speech_of_def Let_def c exo ex merged_def caught_def
         split: sum.splits)
qed


lemma handle_store:
  "store (voice_handle twiml_say parse api req sessions) =
     (snd (s (CallSid req) sessions))
       (CallSid req \<mapsto> after_handle parse api req (session_of sessions (CallSid req)))"
proof -
  let ?old = "session_of sessions (CallSid req)"
  let ?cmd = "agentReply parse api (speech_of req) (?old\<lparr>turns := turns ?old + 1\<rparr>)"
  have cmd: "agentReply parse api (speech_of req) ?old = ?cmd"
    by (rule agentReply_session)
  consider "speech_of req = []" | "speech_of req \<noteq> []" "?cmd = JNull"
    | "speech_of req \<noteq> []" "?cmd \<noteq> JNull"
    by blast
  then show ?thesis
  proof cases
    case 1
    then show ?thesis
      by (simp add: handle_empty [OF s_pair] after_handle_def)
  next
    case 2
    then show ?thesis
      by (simp only: handle_null [OF s_pair 2] after_handle_def cmd Let_def) simp
  next
    case 3
    then show ?thesis
      by (simp only: handle_merge [OF s_pair 3(1) refl 3(2)] after_handle_def cmd Let_def) simp
  qed
qed

lemma session_of_upd_same: "session_of (st(c \<mapsto> x)) c = x"
  by (simp add: session_of_def s_def)

lemma session_of_upd_other: "c' \<noteq> c \<Longrightarrow> session_of (st(c' \<mapsto> x)) c = session_of st c"
  by (simp add: session_of_def s_def Let_def split: option.splits)

lemma session_of_snd_s: "session_of (snd (s c' st)) c = session_of st c"
  by (simp add: session_of_def s_def Let_def split: option.splits)

lemma initial_store: "store (voice_initial cfg req sessions) = snd (s (CallSid req) sessions)"
  by (simp add: voice_initial_def Let_def split: prod.splits option.splits)

lemma gather_store: "store (voice_gather cfg req sessions) = snd (s (CallSid req) sessions)"
  by (simp add: voice_gather_def Let_def split: prod.splits)

lemma after_transfer_store: "store (voice_after_transfer_attempt req sessions) = sessions"
  by (simp add: voice_after_transfer_attempt_def)

lemma step_session:
  "session_of (store (step cfg twiml_say parse e sessions)) c =
     (case e of
        HandleSpeech api req \<Rightarrow>
          if CallSid req = c then after_handle parse api req (session_of sessions c)
          else session_of sessions c
      | _ \<Rightarrow> session_of sessions c)"
  by (cases e)
    (simp_all add: initial_store gather_store after_transfer_store handle_store
       session_of_snd_s session_of_upd_same session_of_upd_other)

section \<open>A turn without speech\<close>




section \<open>The turn budget\<close>

lemma agentReply_throws: "agentReply parse ApiThrows u x = FALLBACK"
  by (simp add: agentReply_def)




section \<open>The examples, evaluated\<close>

lemmas text_defs = TEXT_DANA_def TEXT_BOB_def TEXT_TIME_def TEXT_NO_SAY_def TEXT_NUMBER_def
  TEXT_NAME_42_def TEXT_NULL_def TEXT_ARRAY_SAY_def TEXT_EMPTY_SAY_def

lemmas string_defs = str_def trim_def is_space_def indexOf_def lastIndexOf_def slice_def
  LBRACE_def RBRACE_def

lemmas key_defs = SAY_def EXTRACTED_def NAME_def PREFERRED_TIME_def

lemma agentReply_candidate:
  "agentReply parse (ApiReturns output_text) u x =
     (case parse (candidate output_text) of None \<Rightarrow> FALLBACK | Some v \<Rightarrow> v)"
  by (simp add: agentReply_def candidate_def Let_def)

lemma candidate_examples:
  "candidate (Some TEXT_DANA) = TEXT_DANA"
  "candidate (Some TEXT_BOB) = TEXT_BOB"
  "candidate (Some TEXT_TIME) = TEXT_TIME"
  "candidate (Some TEXT_NO_SAY) = TEXT_NO_SAY"
  "candidate (Some TEXT_NUMBER) = TEXT_NUMBER"
  "candidate (Some TEXT_NAME_42) = TEXT_NAME_42"
  "candidate (Some TEXT_NULL) = TEXT_NULL"
  "candidate (Some TEXT_ARRAY_SAY) = TEXT_ARRAY_SAY"
  "candidate (Some TEXT_EMPTY_SAY) = TEXT_EMPTY_SAY"
  by (simp_all add: candidate_def text_defs string_defs Let_def)

lemma parse_examples_values:
  "parse_examples TEXT_DANA =
     Some (JObj [(SAY, JStr (str ''Thanks, Dana.'')),
                 (EXTRACTED, JObj [(NAME, JStr (str ''Dana''))])])"
  "parse_examples TEXT_BOB =
     Some (JObj [(SAY, JStr (str ''Thanks, Bob.'')),
                 (EXTRACTED, JObj [(NAME, JStr (str ''Bob''))])])"
  "parse_examples TEXT_TIME =
     Some (JObj [(SAY, JStr (str ''Tuesday at 3pm works.'')),
                 (EXTRACTED, JObj [(NAME, JStr []),
                                   (PREFERRED_TIME, JStr (str ''Tuesday at 3pm''))])])"
  "parse_examples TEXT_NO_SAY = Some (JObj [(EXTRACTED, JObj [])])"
  "parse_examples TEXT_NUMBER = Some (JNum (Finite 42))"
  "parse_examples TEXT_NAME_42 =
     Some (JObj [(SAY, JStr (str ''Ok.'')),
                 (EXTRACTED, JObj [(NAME, JNum (Finite 42))])])"
  "parse_examples TEXT_NULL = Some JNull"
  "parse_examples TEXT_ARRAY_SAY =
     Some (JObj [(SAY, JArr [JStr (str ''Tuesday works.'')]),
                 (EXTRACTED, JObj [(PREFERRED_TIME, JStr (str ''Tuesday at 3pm''))])])"
  "parse_examples TEXT_EMPTY_SAY = Some (JObj [(SAY, JObj []), (EXTRACTED, JObj [])])"
  by (simp_all add: parse_examples_def parse_table_def text_defs str_def)

lemma speech_said: "speech_of (said ''Dana'') = str ''Dana''" "speech_of (said ''Bob'') = str ''Bob''"
  "speech_of (said ''Tuesday at 3pm'') = str ''Tuesday at 3pm''"
  by (simp_all add: speech_of_def said_def trim_def str_def is_space_def)

lemma agentReply_examples:
  "agentReply parse_examples (ApiReturns (Some TEXT_DANA)) u x =
     JObj [(SAY, JStr (str ''Thanks, Dana.'')), (EXTRACTED, JObj [(NAME, JStr (str ''Dana''))])]"
  "agentReply parse_examples (ApiReturns (Some TEXT_BOB)) u x =
     JObj [(SAY, JStr (str ''Thanks, Bob.'')), (EXTRACTED, JObj [(NAME, JStr (str ''Bob''))])]"
  "agentReply parse_examples (ApiReturns (Some TEXT_TIME)) u x =
     JObj [(SAY, JStr (str ''Tuesday at 3pm works.'')),
           (EXTRACTED, JObj [(NAME, JStr []), (PREFERRED_TIME, JStr (str ''Tuesday at 3pm''))])]"
  "agentReply parse_examples (ApiReturns (Some TEXT_NO_SAY)) u x = JObj [(EXTRACTED, JObj [])]"
  "agentReply parse_examples (ApiReturns (Some TEXT_NUMBER)) u x = JNum (Finite 42)"
  "agentReply parse_examples (ApiReturns (Some TEXT_NAME_42)) u x =
     JObj [(SAY, JStr (str ''Ok.'')), (EXTRACTED, JObj [(NAME, JNum (Finite 42))])]"
  "agentReply parse_examples (ApiReturns (Some TEXT_ARRAY_SAY)) u x =
     JObj [(SAY, JArr [JStr (str ''Tuesday works.'')]),
           (EXTRACTED, JObj [(PREFERRED_TIME, JStr (str ''Tuesday at 3pm''))])]"
  "agentReply parse_examples (ApiReturns (Some TEXT_EMPTY_SAY)) u x =
     JObj [(SAY, JObj []), (EXTRACTED, JObj [])]"
  by (simp_all add: agentReply_candidate candidate_examples parse_examples_values)

lemma speech_said_nonempty:
  "speech_of (said ''Dana'') \<noteq> []" "speech_of (said ''Bob'') \<noteq> []"
  "speech_of (said ''Tuesday at 3pm'') \<noteq> []"
  by (simp_all add: speech_said) (simp_all add: str_def)

lemma seen_examples:
  "seen parse_examples CA1 (HandleSpeech (ApiReturns (Some TEXT_DANA)) (said ''Dana'')) =
     Some (Some (JStr (str ''Dana'')), None)"
  "seen parse_examples CA1 (HandleSpeech (ApiReturns (Some TEXT_BOB)) (said ''Bob'')) =
     Some (Some (JStr (str ''Bob'')), None)"
  "seen parse_examples CA1 (HandleSpeech (ApiReturns (Some TEXT_TIME)) (said ''Tuesday at 3pm'')) =
     Some (Some (JStr []), Some (JStr (str ''Tuesday at 3pm'')))"
  by (simp_all add: agentReply_examples speech_said_nonempty Let_def)
     (simp_all add: said_def ex_of_def prop_of_def key_defs str_def)

section \<open>Every turn is answered\<close>


text \<open>
  Without a transfer number the initial handler throws before it sends anything.
\<close>

lemma initial_without_transfer_throws:
  "OFFICE_TRANSFER_NUMBER cfg = None \<or> OFFICE_TRANSFER_NUMBER cfg = Some [] \<Longrightarrow>
   reply (voice_initial cfg req sessions) = Inl TypeError"
  by (auto simp add: voice_initial_def Let_def case_prod_beta)

text \<open>
  The claim that every turn on every endpoint answers with a non-empty speak list fails
  where the code transfers instead of speaking: with a transfer number configured, the
  initial handler answers with a dial and no line at all.
\<close>

theorem initial_transfer_speaks_nothing_counterexample:
  "reply (voice_initial \<lparr>OFFICE_TRANSFER_NUMBER = Some (str ''+15551234567''), MAX_TURNS = Finite 6\<rparr>
      \<lparr>CallSid = CA1, SpeechResult = None, DialCallStatus = None\<rparr> Map.empty)
     = Inr [Dial 10 AFTER_TRANSFER_PATH (str ''+15551234567'')]
   \<and> speak_list [Dial 10 AFTER_TRANSFER_PATH (str ''+15551234567'')] = []
   \<and> \<not> well_formed [Dial 10 AFTER_TRANSFER_PATH (str ''+15551234567'')]"
  by (simp add: voice_initial_def Let_def case_prod_beta well_formed_def str_def)

lemma handle_reply_answers:
  "\<exists>vs. reply (voice_handle twiml_say parse api req sessions) = Inr vs
      \<and> next_action vs \<noteq> None
      \<and> (speak_list vs = [] \<longrightarrow>
            speech_of req \<noteq> []
            \<and> say_line twiml_say
                (prop_of (agentReply parse api (speech_of req) (session_of sessions (CallSid req)))
                   SAY) = Inr None)"
proof -
  let ?old = "session_of sessions (CallSid req)"
  let ?cmd = "agentReply parse api (speech_of req) (?old\<lparr>turns := turns ?old + 1\<rparr>)"
  have cmd: "agentReply parse api (speech_of req) ?old = ?cmd"
    by (rule agentReply_session)
  consider "speech_of req = []" | "speech_of req \<noteq> []" "?cmd = JNull"
    | "speech_of req \<noteq> []" "?cmd \<noteq> JNull"
    by blast
  then show ?thesis
  proof cases
    case 1
    then show ?thesis
      by (simp add: handle_empty [OF s_pair])
  next
    case 2
    then show ?thesis
      by (simp add: handle_null [OF s_pair 2])
  next
    case 3
    show ?thesis
    proof (cases "say_line twiml_say (prop_of ?cmd SAY)")
      case (Inl err)
      then show ?thesis
        by (simp add: handle_merge [OF s_pair 3(1) refl 3(2)] Let_def)
    next
      case (Inr line)
      then show ?thesis
        by (cases line) (simp_all add: handle_merge [OF s_pair 3(1) refl 3(2)] Let_def cmd 3(1))
    qed
  qed
qed

lemma handle_reply_caught:
  assumes "speech_of req \<noteq> []"
    and "agentReply parse api (speech_of req) (session_of sessions (CallSid req)) = cmd"
    and "cmd = JNull \<or> (\<exists>err. say_line twiml_say (prop_of cmd SAY) = Inl err)"
  shows "reply (voice_handle twiml_say parse api req sessions) = Inr [Say MSG_APOLOGY, Hangup]"
proof -
  let ?old = "session_of sessions (CallSid req)"
  have cmd: "agentReply parse api (speech_of req) (?old\<lparr>turns := turns ?old + 1\<rparr>) = cmd"
    using assms(2) agentReply_session [of parse api "speech_of req" ?old] by simp
  show ?thesis
  proof (cases "cmd = JNull")
    case True
    then show ?thesis
      using cmd by (simp add: handle_null [OF s_pair assms(1)])
  next
    case False
    then obtain err where "say_line twiml_say (prop_of cmd SAY) = Inl err"
      using assms(3) by blast
    then show ?thesis
      by (simp add: handle_merge [OF s_pair assms(1) cmd False] Let_def)
  qed
qed

lemma gather_reply_well_formed:
  "\<exists>vs. reply (voice_gather cfg req sessions) = Inr vs \<and> well_formed vs"
  by (simp add: voice_gather_def Let_def case_prod_beta well_formed_def)

text \<open>
  C2, as the handlers have it. The gathering step always answers with a document that
  has a non-empty speak list and a valid next action. The speech-turn handler always
  answers with a document that has a valid next action; its speak list is non-empty
  unless the library renders the reply line of the extraction service without text.
  Every error inside the speech-turn handler is answered with the apology and a hangup:
  a reply of the extraction call that is \<^verbatim>\<open>null\<close>, so that reading \<open>extracted\<close>
  throws, and a reply line that \<^verbatim>\<open>twiml.say\<close> rejects. The transfer-outcome callback
  only hangs up when the transfer completed, and otherwise answers with a non-empty
  speak list and a valid next action. The initial handler, when a transfer number is
  configured, answers with the dial, which is the TRANSFER action.
\<close>

theorem always_respond:
  "(\<exists>vs. reply (voice_gather cfg req sessions) = Inr vs \<and> well_formed vs)
   \<and> (\<exists>vs. reply (voice_handle twiml_say parse api req sessions) = Inr vs
         \<and> next_action vs \<noteq> None
         \<and> (speak_list vs = [] \<longrightarrow>
               speech_of req \<noteq> []
               \<and> say_line twiml_say
                   (prop_of (agentReply parse api (speech_of req)
                      (session_of sessions (CallSid req))) SAY) = Inr None))
   \<and> (speech_of req \<noteq> []
        \<and> (agentReply parse api (speech_of req) (session_of sessions (CallSid req)) = JNull
           \<or> (\<exists>err. say_line twiml_say
                  (prop_of (agentReply parse api (speech_of req)
                     (session_of sessions (CallSid req))) SAY) = Inl err)) \<longrightarrow>
      reply (voice_handle twiml_say parse api req sessions) = Inr [Say MSG_APOLOGY, Hangup])
   \<and> well_formed [Say MSG_APOLOGY, Hangup]
   \<and> next_action [Say MSG_APOLOGY, Hangup] = Some HANGUP
   \<and> (DialCallStatus req = Some (str ''completed'') \<longrightarrow>
        reply (voice_after_transfer_attempt req sessions) = Inr [Hangup]
        \<and> next_action [Hangup] = Some HANGUP)
   \<and> (DialCallStatus req \<noteq> Some (str ''completed'') \<longrightarrow>
        (\<exists>vs. reply (voice_after_transfer_attempt req sessions) = Inr vs \<and> well_formed vs))
   \<and> (\<forall>number. OFFICE_TRANSFER_NUMBER cfg = Some number \<and> number \<noteq> [] \<longrightarrow>
        reply (voice_initial cfg req sessions) = Inr [Dial 10 AFTER_TRANSFER_PATH number]
        \<and> next_action [Dial 10 AFTER_TRANSFER_PATH number] = Some TRANSFER)"
proof -
  have caught: "reply (voice_handle twiml_say parse api req sessions) =
      Inr [Say MSG_APOLOGY, Hangup]"
    if "speech_of req \<noteq> []"
      and "agentReply parse api (speech_of req) (session_of sessions (CallSid req)) = JNull
           \<or> (\<exists>err. say_line twiml_say
                  (prop_of (agentReply parse api (speech_of req)
                     (session_of sessions (CallSid req))) SAY) = Inl err)"
    using handle_reply_caught [OF that(1) refl] that(2) by blast
  have apology: "well_formed [Say MSG_APOLOGY, Hangup]"
    "next_action [Say MSG_APOLOGY, Hangup] = Some HANGUP"
    by (simp_all add: well_formed_def)
  have completed: "DialCallStatus req = Some (str ''completed'') \<longrightarrow>
        reply (voice_after_transfer_attempt req sessions) = Inr [Hangup]
        \<and> next_action [Hangup] = Some HANGUP"
    by (simp add: voice_after_transfer_attempt_def)
  have other: "DialCallStatus req \<noteq> Some (str ''completed'') \<longrightarrow>
        (\<exists>vs. reply (voice_after_transfer_attempt req sessions) = Inr vs \<and> well_formed vs)"
    by (simp add: voice_after_transfer_attempt_def well_formed_def)
  have initial: "\<forall>number. OFFICE_TRANSFER_NUMBER cfg = Some number \<and> number \<noteq> [] \<longrightarrow>
        reply (voice_initial cfg req sessions) = Inr [Dial 10 AFTER_TRANSFER_PATH number]
        \<and> next_action [Dial 10 AFTER_TRANSFER_PATH number] = Some TRANSFER"
    by (simp add: voice_initial_def Let_def case_prod_beta)
  show ?thesis
    using gather_reply_well_formed [of cfg req sessions]
      handle_reply_answers [of twiml_say parse api req sessions]
      caught apology completed other initial
    by blast
qed

lemma agentReply_null:
  "agentReply parse_examples (ApiReturns (Some TEXT_NULL)) u x = JNull"
  by (simp add: agentReply_candidate candidate_examples parse_examples_values)

lemma handle_empty_say:
  "reply (voice_handle say_examples parse_examples (ApiReturns (Some TEXT_EMPTY_SAY))
      (said ''Dana'') Map.empty) = Inr [SayEmpty, Redirect GATHER_PATH]"
proof -
  let ?cmd = "JObj [(SAY, JObj []), (EXTRACTED, JObj [])]"
  have nn: "?cmd \<noteq> JNull"
    by simp
  have old: "session_of Map.empty (CallSid (said ''Dana'')) =
      \<lparr>turns = 0, name = None, preferred_time = None, booked = False\<rparr>"
    by (simp add: session_of_None)
  have props: "prop_of (ex_of ?cmd) NAME = None" "prop_of (ex_of ?cmd) PREFERRED_TIME = None"
    "prop_of ?cmd SAY = Some (JObj [])"
    by (simp_all add: ex_of_def prop_of_def key_defs str_def)
  show ?thesis
    by (simp add: handle_merge [OF s_pair speech_said_nonempty(1) agentReply_examples(8) nn]
          props merged_def Let_def old)
qed

theorem always_respond_witness:
  "speech_of (said ''Dana'') \<noteq> []
   \<and> agentReply parse_examples (ApiReturns (Some TEXT_NULL)) (speech_of (said ''Dana''))
       (session_of Map.empty (CallSid (said ''Dana''))) = JNull
   \<and> reply (voice_handle say_examples parse_examples (ApiReturns (Some TEXT_NULL))
        (said ''Dana'') Map.empty) = Inr [Say MSG_APOLOGY, Hangup]
   \<and> reply (voice_handle say_examples parse_examples (ApiReturns (Some TEXT_EMPTY_SAY))
        (said ''Dana'') Map.empty) = Inr [SayEmpty, Redirect GATHER_PATH]
   \<and> speak_list [SayEmpty, Redirect GATHER_PATH] = []
   \<and> next_action [SayEmpty, Redirect GATHER_PATH] = Some LISTEN"
  using always_respond [where cfg = "\<lparr>OFFICE_TRANSFER_NUMBER = None, MAX_TURNS = Finite 6\<rparr>"
      and req = "said ''Dana''" and sessions = Map.empty and twiml_say = say_examples
      and parse = parse_examples and api = "ApiReturns (Some TEXT_NULL)"]
    handle_empty_say
  by (simp add: agentReply_null speech_said) (simp add: str_def)

section \<open>Merging extraction results\<close>

lemma handle_session:
  "session_of (store (voice_handle twiml_say parse api req sessions)) c =
     (if CallSid req = c then after_handle parse api req (session_of sessions c)
      else session_of sessions c)"
  by (simp add: handle_store session_of_snd_s session_of_upd_same session_of_upd_other)

lemma step_name:
  "name (session_of (store (step cfg twiml_say parse e sessions)) c) =
     (case seen parse c e of
        None \<Rightarrow> name (session_of sessions c)
      | Some p \<Rightarrow> merged (name (session_of sessions c)) (fst p))"
proof (cases e)
  case (HandleSpeech api req)
  show ?thesis
    unfolding HandleSpeech
    by (simp add: handle_session after_handle_def Let_def agentReply_def)
qed (simp_all add: initial_store gather_store after_transfer_store session_of_snd_s)

lemma step_time:
  "preferred_time (session_of (store (step cfg twiml_say parse e sessions)) c) =
     (case seen parse c e of
        None \<Rightarrow> preferred_time (session_of sessions c)
      | Some p \<Rightarrow> merged (preferred_time (session_of sessions c)) (snd p))"
proof (cases e)
  case (HandleSpeech api req)
  show ?thesis
    unfolding HandleSpeech
    by (simp add: handle_session after_handle_def Let_def agentReply_def)
qed (simp_all add: initial_store gather_store after_transfer_store session_of_snd_s)

lemma run_name:
  "name (session_of (run cfg twiml_say parse evs sessions) c) =
     last_write (name (session_of sessions c)) (map fst (List.map_filter (seen parse c) evs))"
proof (induction evs arbitrary: sessions)
  case Nil
  show ?case by (simp add: List.map_filter_simps)
next
  case (Cons e evs)
  show ?case
    by (cases "seen parse c e") (simp_all add: Cons.IH step_name List.map_filter_simps del: step.simps)
qed

lemma run_time:
  "preferred_time (session_of (run cfg twiml_say parse evs sessions) c) =
     last_write (preferred_time (session_of sessions c))
       (map snd (List.map_filter (seen parse c) evs))"
proof (induction evs arbitrary: sessions)
  case Nil
  show ?case by (simp add: List.map_filter_simps)
next
  case (Cons e evs)
  show ?case
    by (cases "seen parse c e") (simp_all add: Cons.IH step_time List.map_filter_simps del: step.simps)
qed

lemma last_write_set: "cur \<noteq> None \<Longrightarrow> last_write cur vs \<noteq> None"
proof (induction vs arbitrary: cur)
  case Nil
  then show ?case by simp
next
  case (Cons v vs)
  have "merged cur v \<noteq> None"
    using Cons.prems by (cases v) (simp_all add: merged_def)
  then show ?case
    by (simp add: Cons.IH)
qed

text \<open>
  C1, as the handler has it. Over every sequence of requests, the name of a call's
  session is the last truthy name that a speech turn of this call reported, or the
  name it had before when there is none; likewise the preferred time. So a reported
  value that is absent, \<^verbatim>\<open>null\<close> or empty changes nothing, and a field that is set is
  never unset, but a later truthy value replaces an earlier one.
\<close>

theorem field_capture_last_write:
  "name (session_of (run cfg twiml_say parse evs sessions) c) =
     last_write (name (session_of sessions c)) (map fst (List.map_filter (seen parse c) evs))
   \<and> preferred_time (session_of (run cfg twiml_say parse evs sessions) c) =
     last_write (preferred_time (session_of sessions c))
       (map snd (List.map_filter (seen parse c) evs))
   \<and> (name (session_of sessions c) \<noteq> None \<longrightarrow>
        name (session_of (run cfg twiml_say parse evs sessions) c) \<noteq> None)
   \<and> (preferred_time (session_of sessions c) \<noteq> None \<longrightarrow>
        preferred_time (session_of (run cfg twiml_say parse evs sessions) c) \<noteq> None)"
  using run_name [of cfg twiml_say parse evs sessions c]
    run_time [of cfg twiml_say parse evs sessions c]
    last_write_set [of "name (session_of sessions c)"]
    last_write_set [of "preferred_time (session_of sessions c)"]
  by simp

lemma session_named_dana:
  "session_of named_dana CA1 =
     \<lparr>turns = 1, name = Some (JStr (str ''Dana'')), preferred_time = None, booked = False\<rparr>"
  by (simp add: session_of_Some named_dana_def)

text \<open>
  The claim that the first value of a field is kept for the whole call fails: after a
  first reply naming Dana the session holds Dana, and after a second reply naming Bob
  it holds Bob.
\<close>

theorem first_write_wins_counterexample:
  "name (session_of
      (run cfg_default say_examples parse_examples
         [HandleSpeech (ApiReturns (Some TEXT_DANA)) (said ''Dana'')] Map.empty) CA1)
     = Some (JStr (str ''Dana''))
   \<and> name (session_of
      (run cfg_default say_examples parse_examples
         [HandleSpeech (ApiReturns (Some TEXT_DANA)) (said ''Dana''),
          HandleSpeech (ApiReturns (Some TEXT_BOB)) (said ''Bob'')] Map.empty) CA1)
     = Some (JStr (str ''Bob''))
   \<and> str ''Dana'' \<noteq> str ''Bob''"
  by (simp add: run_name seen_examples List.map_filter_simps merged_def session_of_None
        del: run.simps seen.simps)
     (simp add: str_def)

theorem field_capture_last_write_witness:
  "name (session_of named_dana CA1) \<noteq> None
   \<and> name (session_of
      (run cfg_default say_examples parse_examples
         [HandleSpeech (ApiReturns (Some TEXT_TIME)) (said ''Tuesday at 3pm'')] named_dana) CA1)
     = Some (JStr (str ''Dana''))
   \<and> preferred_time (session_of
      (run cfg_default say_examples parse_examples
         [HandleSpeech (ApiReturns (Some TEXT_TIME)) (said ''Tuesday at 3pm'')] named_dana) CA1)
     = Some (JStr (str ''Tuesday at 3pm''))"
  using field_capture_last_write [of cfg_default say_examples parse_examples
      "[HandleSpeech (ApiReturns (Some TEXT_TIME)) (said ''Tuesday at 3pm'')]" named_dana CA1]
  by (simp add: seen_examples List.map_filter_simps merged_def session_named_dana
        del: run.simps seen.simps)
     (simp add: str_def)

section \<open>Booking\<close>

lemma truthy_opt_Some: "truthy_opt v \<Longrightarrow> v \<noteq> None"
  by (cases v) simp_all

lemma session_ok_fresh:
  "session_ok \<lparr>turns = 0, name = None, preferred_time = None, booked = False\<rparr>"
  by (simp add: session_ok_def)

lemma after_handle_ok: "session_ok old \<Longrightarrow> session_ok (after_handle parse api req old)"
  by (auto simp add: after_handle_def session_ok_def merged_def Let_def)

lemma after_handle_booked: "booked old \<Longrightarrow> booked (after_handle parse api req old)"
  by (simp add: after_handle_def Let_def)

lemma step_ok:
  "session_ok (session_of sessions c) \<Longrightarrow>
   session_ok (session_of (store (step cfg twiml_say parse e sessions)) c)"
  by (cases e)
    (simp_all add: initial_store gather_store after_transfer_store session_of_snd_s
       handle_session after_handle_ok)

lemma step_booked:
  "booked (session_of sessions c) \<Longrightarrow>
   booked (session_of (store (step cfg twiml_say parse e sessions)) c)"
  by (cases e)
    (simp_all add: initial_store gather_store after_transfer_store session_of_snd_s
       handle_session after_handle_booked)

lemma run_booked:
  "booked (session_of sessions c) \<Longrightarrow> booked (session_of (run cfg twiml_say parse evs sessions) c)"
proof (induction evs arbitrary: sessions)
  case Nil
  then show ?case by simp
next
  case (Cons e evs)
  have "booked (session_of (store (step cfg twiml_say parse e sessions)) c)"
    using Cons.prems by (rule step_booked)
  then show ?case
    by (simp add: Cons.IH del: step.simps)
qed

lemma reachable_ok: "reachable cfg twiml_say parse sessions \<Longrightarrow> session_ok (session_of sessions c)"
proof (induction arbitrary: c rule: reachable.induct)
  case reach_start
  show ?case by (simp add: session_of_None session_ok_fresh)
next
  case (reach_step sessions e)
  then show ?case by (simp add: step_ok del: step.simps)
qed

lemma booking_turn:
  assumes "\<not> booked (session_of sessions c)"
    and "booked (session_of (store (step cfg twiml_say parse e sessions)) c)"
  shows "\<exists>api req. e = HandleSpeech api req \<and> CallSid req = c
           \<and> (case say_line twiml_say
                      (prop_of (agentReply parse api (speech_of req) (session_of sessions c)) SAY) of
                 Inl err \<Rightarrow>
                   reply (step cfg twiml_say parse e sessions) = Inr [Say MSG_APOLOGY, Hangup]
               | Inr line \<Rightarrow>
                   reply (step cfg twiml_say parse e sessions) =
                     Inr [say_verb line, Say MSG_CONFIRM, Hangup])"
proof (cases e)
  case (HandleSpeech api req)
  let ?old = "session_of sessions (CallSid req)"
  let ?cmd = "agentReply parse api (speech_of req) (?old\<lparr>turns := turns ?old + 1\<rparr>)"
  have cmd: "agentReply parse api (speech_of req) ?old = ?cmd"
    by (rule agentReply_session)
  have c: "CallSid req = c"
    using assms by (auto simp add: HandleSpeech handle_session split: if_splits)
  have after: "booked (after_handle parse api req ?old)" and before: "\<not> booked ?old"
    using assms by (simp_all add: HandleSpeech handle_session c)
  have speech: "speech_of req \<noteq> []" and nonnull: "?cmd \<noteq> JNull"
    using after before by (auto simp add: after_handle_def cmd Let_def split: if_splits)
  have both: "truthy_opt (merged (name ?old) (prop_of (ex_of ?cmd) NAME))
      \<and> truthy_opt (merged (preferred_time ?old) (prop_of (ex_of ?cmd) PREFERRED_TIME))"
    using after before speech nonnull by (simp add: after_handle_def cmd Let_def)
  have "case say_line twiml_say (prop_of ?cmd SAY) of
          Inl err \<Rightarrow>
            reply (voice_handle twiml_say parse api req sessions) = Inr [Say MSG_APOLOGY, Hangup]
        | Inr line \<Rightarrow>
            reply (voice_handle twiml_say parse api req sessions) =
              Inr [say_verb line, Say MSG_CONFIRM, Hangup]"
    using both
    by (simp add: handle_merge [OF s_pair speech refl nonnull] Let_def split: sum.splits)
  then show ?thesis
    using cmd by (simp add: HandleSpeech c split: sum.splits)
next
  case (Initial req)
  then show ?thesis
    using assms by (simp add: initial_store session_of_snd_s)
next
  case (AfterTransferAttempt req)
  then show ?thesis
    using assms by (simp add: after_transfer_store)
next
  case (GatherSpeech req)
  then show ?thesis
    using assms by (simp add: gather_store session_of_snd_s)
qed

text \<open>
  C5, as the handler has it. In every session map the process can reach, a session is
  booked exactly when its name and its preferred time are both set (truthy), so a
  booked session has both fields populated; a booked session stays booked over every
  further sequence of requests, so \<open>booked\<close> never reverts and goes from false to true
  at most once. The request on which a session becomes booked is a speech turn of that
  call, and its response ends in a hangup: it is the reply line, then the confirmation
  line, then the hangup, unless \<^verbatim>\<open>twiml.say\<close> rejects the reply line; then the
  response is the apology and the hangup, without the confirmation line, and the session
  is booked all the same.
\<close>

theorem booking_monotone_and_complete:
  assumes "reachable cfg twiml_say parse sessions"
  shows "(booked (session_of sessions c) \<longleftrightarrow>
            truthy_opt (name (session_of sessions c))
            \<and> truthy_opt (preferred_time (session_of sessions c)))
    \<and> (booked (session_of sessions c) \<longrightarrow>
          booked (session_of (run cfg twiml_say parse evs sessions) c))
    \<and> (\<not> booked (session_of sessions c)
        \<and> booked (session_of (store (step cfg twiml_say parse e sessions)) c) \<longrightarrow>
          (\<exists>api req vs. e = HandleSpeech api req \<and> CallSid req = c
             \<and> reply (step cfg twiml_say parse e sessions) = Inr vs
             \<and> next_action vs = Some HANGUP
             \<and> ((\<exists>line. say_line twiml_say
                     (prop_of (agentReply parse api (speech_of req) (session_of sessions c)) SAY)
                       = Inr line
                   \<and> vs = [say_verb line, Say MSG_CONFIRM, Hangup])
                \<or> ((\<exists>err. say_line twiml_say
                     (prop_of (agentReply parse api (speech_of req) (session_of sessions c)) SAY)
                       = Inl err)
                   \<and> vs = [Say MSG_APOLOGY, Hangup]))))"
proof -
  have "session_ok (session_of sessions c)"
    using assms by (rule reachable_ok)
  then have inv: "booked (session_of sessions c) \<longleftrightarrow>
            truthy_opt (name (session_of sessions c))
            \<and> truthy_opt (preferred_time (session_of sessions c))"
    by (simp add: session_ok_def)
  have turn: "\<exists>api req vs. e = HandleSpeech api req \<and> CallSid req = c
             \<and> reply (step cfg twiml_say parse e sessions) = Inr vs
             \<and> next_action vs = Some HANGUP
             \<and> ((\<exists>line. say_line twiml_say
                     (prop_of (agentReply parse api (speech_of req) (session_of sessions c)) SAY)
                       = Inr line
                   \<and> vs = [say_verb line, Say MSG_CONFIRM, Hangup])
                \<or> ((\<exists>err. say_line twiml_say
                     (prop_of (agentReply parse api (speech_of req) (session_of sessions c)) SAY)
                       = Inl err)
                   \<and> vs = [Say MSG_APOLOGY, Hangup]))"
    if before: "\<not> booked (session_of sessions c)"
      and after: "booked (session_of (store (step cfg twiml_say parse e sessions)) c)"
  proof -
    obtain api req where e: "e = HandleSpeech api req" and c: "CallSid req = c"
      and r: "case say_line twiml_say
                      (prop_of (agentReply parse api (speech_of req) (session_of sessions c)) SAY) of
                 Inl err \<Rightarrow>
                   reply (step cfg twiml_say parse e sessions) = Inr [Say MSG_APOLOGY, Hangup]
               | Inr line \<Rightarrow>
                   reply (step cfg twiml_say parse e sessions) =
                     Inr [say_verb line, Say MSG_CONFIRM, Hangup]"
      using booking_turn [OF before after] by blast
    show ?thesis
    proof (cases "say_line twiml_say
                      (prop_of (agentReply parse api (speech_of req) (session_of sessions c)) SAY)")
      case (Inl err)
      then have "reply (step cfg twiml_say parse e sessions) = Inr [Say MSG_APOLOGY, Hangup]"
        using r by simp
      moreover have "next_action [Say MSG_APOLOGY, Hangup] = Some HANGUP"
        by simp
      ultimately show ?thesis
        using e c Inl by blast
    next
      case (Inr line)
      then have "reply (step cfg twiml_say parse e sessions) =
          Inr [say_verb line, Say MSG_CONFIRM, Hangup]"
        using r by simp
      moreover have "next_action [say_verb line, Say MSG_CONFIRM, Hangup] = Some HANGUP"
        by (cases line) simp_all
      ultimately show ?thesis
        using e c Inr by blast
    qed
  qed
  show ?thesis
    using inv run_booked [of sessions c cfg twiml_say parse evs] turn by blast
qed

lemma after_handle_dana:
  "after_handle parse_examples (ApiReturns (Some TEXT_DANA)) (said ''Dana'')
     \<lparr>turns = 0, name = None, preferred_time = None, booked = False\<rparr> =
   \<lparr>turns = 1, name = Some (JStr (str ''Dana'')), preferred_time = None, booked = False\<rparr>"
  by (simp add: after_handle_def agentReply_examples speech_said_nonempty Let_def)
     (simp add: ex_of_def prop_of_def key_defs str_def merged_def)

lemma named_dana_reached:
  "store (step cfg_default say_examples parse_examples
      (HandleSpeech (ApiReturns (Some TEXT_DANA)) (said ''Dana'')) Map.empty) = named_dana"
proof -
  have "CallSid (said ''Dana'') = CA1"
    by (simp add: said_def)
  then show ?thesis
    by (simp add: handle_store session_of_None after_handle_dana named_dana_def s_def Let_def)
qed

lemma named_dana_reachable: "reachable cfg_default say_examples parse_examples named_dana"
  using reach_step [OF reach_start, of cfg_default say_examples parse_examples
      "HandleSpeech (ApiReturns (Some TEXT_DANA)) (said ''Dana'')"]
  by (simp only: named_dana_reached)

lemma handle_time_after_dana:
  "voice_handle say_examples parse_examples (ApiReturns (Some TEXT_TIME)) (said ''Tuesday at 3pm'') named_dana =
     \<lparr>reply = Inr [Say (str ''Tuesday at 3pm works.''), Say MSG_CONFIRM, Hangup],
      store = [CA1 \<mapsto> \<lparr>turns = 2, name = Some (JStr (str ''Dana'')),
                        preferred_time = Some (JStr (str ''Tuesday at 3pm'')), booked = True\<rparr>],
      calls = [str ''Tuesday at 3pm'']\<rparr>"
proof -
  let ?cmd = "JObj [(SAY, JStr (str ''Tuesday at 3pm works.'')),
           (EXTRACTED, JObj [(NAME, JStr []), (PREFERRED_TIME, JStr (str ''Tuesday at 3pm''))])]"
  have sid: "CallSid (said ''Tuesday at 3pm'') = CA1"
    by (simp add: said_def)
  have s: "s (CallSid (said ''Tuesday at 3pm'')) named_dana =
      (\<lparr>turns = 1, name = Some (JStr (str ''Dana'')), preferred_time = None, booked = False\<rparr>,
       named_dana)"
    by (simp add: sid s_def named_dana_def)
  have nn: "?cmd \<noteq> JNull"
    by simp
  have props: "prop_of (ex_of ?cmd) NAME = Some (JStr [])"
    "prop_of (ex_of ?cmd) PREFERRED_TIME = Some (JStr (str ''Tuesday at 3pm''))"
    "prop_of ?cmd SAY = Some (JStr (str ''Tuesday at 3pm works.''))"
    by (simp_all add: ex_of_def prop_of_def key_defs str_def)
  show ?thesis
    by (simp add: handle_merge [OF s speech_said_nonempty(3) agentReply_examples(3) nn]
          props merged_def speech_said Let_def sid)
       (simp add: named_dana_def str_def numeral_2_eq_2)
qed

theorem booking_monotone_and_complete_witness:
  "reachable cfg_default say_examples parse_examples named_dana
   \<and> \<not> booked (session_of named_dana CA1)
   \<and> booked (session_of (store (step cfg_default say_examples parse_examples
        (HandleSpeech (ApiReturns (Some TEXT_TIME)) (said ''Tuesday at 3pm'')) named_dana)) CA1)
   \<and> reply (step cfg_default say_examples parse_examples
        (HandleSpeech (ApiReturns (Some TEXT_TIME)) (said ''Tuesday at 3pm'')) named_dana) =
       Inr [Say (str ''Tuesday at 3pm works.''), Say MSG_CONFIRM, Hangup]"
  using booking_monotone_and_complete [OF named_dana_reachable, of CA1 "[]"
      "HandleSpeech (ApiReturns (Some TEXT_TIME)) (said ''Tuesday at 3pm'')"]
    named_dana_reachable
  by (simp add: handle_time_after_dana session_named_dana session_of_upd_same)

lemma handle_array_say_after_dana:
  "voice_handle say_examples parse_examples (ApiReturns (Some TEXT_ARRAY_SAY))
     (said ''Tuesday at 3pm'') named_dana =
     \<lparr>reply = Inr [Say MSG_APOLOGY, Hangup],
      store = [CA1 \<mapsto> \<lparr>turns = 2, name = Some (JStr (str ''Dana'')),
                        preferred_time = Some (JStr (str ''Tuesday at 3pm'')), booked = True\<rparr>],
      calls = [str ''Tuesday at 3pm'']\<rparr>"
proof -
  let ?cmd = "JObj [(SAY, JArr [JStr (str ''Tuesday works.'')]),
           (EXTRACTED, JObj [(PREFERRED_TIME, JStr (str ''Tuesday at 3pm''))])]"
  have sid: "CallSid (said ''Tuesday at 3pm'') = CA1"
    by (simp add: said_def)
  have s: "s (CallSid (said ''Tuesday at 3pm'')) named_dana =
      (\<lparr>turns = 1, name = Some (JStr (str ''Dana'')), preferred_time = None, booked = False\<rparr>,
       named_dana)"
    by (simp add: sid s_def named_dana_def)
  have nn: "?cmd \<noteq> JNull"
    by simp
  have props: "prop_of (ex_of ?cmd) NAME = None"
    "prop_of (ex_of ?cmd) PREFERRED_TIME = Some (JStr (str ''Tuesday at 3pm''))"
    "prop_of ?cmd SAY = Some (JArr [JStr (str ''Tuesday works.'')])"
    by (simp_all add: ex_of_def prop_of_def key_defs str_def)
  show ?thesis
    by (simp add: handle_merge [OF s speech_said_nonempty(3) agentReply_examples(7) nn]
          props merged_def speech_said Let_def sid)
       (simp add: named_dana_def str_def numeral_2_eq_2)
qed

text \<open>
  The claim that the turn on which booking completes appends the confirmation line
  fails when the library rejects the reply line: with a reply whose \<open>say\<close> is an array,
  the session becomes booked and the response is the apology and the hangup, with no
  confirmation line.
\<close>

theorem booking_without_confirmation_counterexample:
  "reachable cfg_default say_examples parse_examples named_dana
   \<and> \<not> booked (session_of named_dana CA1)
   \<and> booked (session_of (store (step cfg_default say_examples parse_examples
        (HandleSpeech (ApiReturns (Some TEXT_ARRAY_SAY)) (said ''Tuesday at 3pm'')) named_dana))
        CA1)
   \<and> reply (step cfg_default say_examples parse_examples
        (HandleSpeech (ApiReturns (Some TEXT_ARRAY_SAY)) (said ''Tuesday at 3pm'')) named_dana) =
       Inr [Say MSG_APOLOGY, Hangup]
   \<and> MSG_CONFIRM \<notin> set (speak_list [Say MSG_APOLOGY, Hangup])"
proof -
  have "MSG_CONFIRM \<noteq> MSG_APOLOGY"
    by (simp add: MSG_CONFIRM_def MSG_APOLOGY_def str_def)
  then show ?thesis
    using named_dana_reachable
    by (simp add: handle_array_say_after_dana session_named_dana session_of_upd_same)
qed

section \<open>What a set field holds\<close>

text \<open>
  The claim that every field that is set holds a non-empty string fails: the merge
  tests truthiness only, and a reply whose name is the number 42 leaves that number in
  the session.
\<close>

theorem set_field_not_string_counterexample:
  "reachable cfg_default say_examples parse_examples
     (store (step cfg_default say_examples parse_examples
        (HandleSpeech (ApiReturns (Some TEXT_NAME_42)) (said ''Dana'')) Map.empty))
   \<and> name (session_of
       (store (step cfg_default say_examples parse_examples
          (HandleSpeech (ApiReturns (Some TEXT_NAME_42)) (said ''Dana'')) Map.empty)) CA1)
      = Some (JNum (Finite 42))
   \<and> \<not> nonempty_string (name (session_of
       (store (step cfg_default say_examples parse_examples
          (HandleSpeech (ApiReturns (Some TEXT_NAME_42)) (said ''Dana'')) Map.empty)) CA1))"
proof -
  have "CallSid (said ''Dana'') = CA1"
    by (simp add: said_def)
  then have "name (session_of
       (store (voice_handle say_examples parse_examples (ApiReturns (Some TEXT_NAME_42)) (said ''Dana'')
          Map.empty)) CA1) = Some (JNum (Finite 42))"
    by (simp add: handle_session after_handle_def agentReply_examples speech_said_nonempty Let_def)
       (simp add: ex_of_def prop_of_def key_defs str_def merged_def)
  then show ?thesis
    using reach_step [OF reach_start, of cfg_default say_examples parse_examples
      "HandleSpeech (ApiReturns (Some TEXT_NAME_42)) (said ''Dana'')"]
    by simp
qed

text \<open>
  C10, as the handler has it. In every session map the process can reach, a field that
  is set holds a truthy value, which is a non-empty string whenever it is a string, and
  a booked session has two truthy fields. A reply whose name (or preferred time) is the
  empty string leaves the corresponding field of the session as it was.
\<close>

theorem set_fields_truthy:
  assumes "reachable cfg twiml_say parse sessions"
  shows "(\<forall>v. name (session_of sessions c) = Some v \<longrightarrow>
            truthy v \<and> (\<forall>t. v = JStr t \<longrightarrow> t \<noteq> []))
    \<and> (\<forall>v. preferred_time (session_of sessions c) = Some v \<longrightarrow>
            truthy v \<and> (\<forall>t. v = JStr t \<longrightarrow> t \<noteq> []))
    \<and> (booked (session_of sessions c) \<longrightarrow>
          truthy_opt (name (session_of sessions c))
          \<and> truthy_opt (preferred_time (session_of sessions c)))
    \<and> (prop_of (ex_of (agentReply parse api (speech_of req) (session_of sessions (CallSid req))))
          NAME = Some (JStr []) \<longrightarrow>
        name (session_of (store (voice_handle twiml_say parse api req sessions)) (CallSid req)) =
          name (session_of sessions (CallSid req)))
    \<and> (prop_of (ex_of (agentReply parse api (speech_of req) (session_of sessions (CallSid req))))
          PREFERRED_TIME = Some (JStr []) \<longrightarrow>
        preferred_time (session_of (store (voice_handle twiml_say parse api req sessions)) (CallSid req)) =
          preferred_time (session_of sessions (CallSid req)))"
proof -
  have ok: "session_ok (session_of sessions c)"
    using assms by (rule reachable_ok)
  have n: "truthy v \<and> (\<forall>t. v = JStr t \<longrightarrow> t \<noteq> [])" if "name (session_of sessions c) = Some v" for v
    using ok that by (auto simp add: session_ok_def)
  have p: "truthy v \<and> (\<forall>t. v = JStr t \<longrightarrow> t \<noteq> [])"
    if "preferred_time (session_of sessions c) = Some v" for v
    using ok that by (auto simp add: session_ok_def)
  have b: "booked (session_of sessions c) \<longrightarrow>
          truthy_opt (name (session_of sessions c))
          \<and> truthy_opt (preferred_time (session_of sessions c))"
    using ok by (simp add: session_ok_def)
  have en: "name (session_of (store (voice_handle twiml_say parse api req sessions)) (CallSid req)) =
          name (session_of sessions (CallSid req))"
    if "prop_of (ex_of (agentReply parse api (speech_of req) (session_of sessions (CallSid req))))
          NAME = Some (JStr [])"
    using that by (simp add: handle_session after_handle_def merged_def Let_def)
  have ep: "preferred_time (session_of (store (voice_handle twiml_say parse api req sessions)) (CallSid req)) =
          preferred_time (session_of sessions (CallSid req))"
    if "prop_of (ex_of (agentReply parse api (speech_of req) (session_of sessions (CallSid req))))
          PREFERRED_TIME = Some (JStr [])"
    using that by (simp add: handle_session after_handle_def merged_def Let_def)
  show ?thesis
    using n p b en ep by blast
qed

theorem set_fields_truthy_witness:
  "reachable cfg_default say_examples parse_examples named_dana
   \<and> prop_of (ex_of (agentReply parse_examples (ApiReturns (Some TEXT_TIME))
        (speech_of (said ''Tuesday at 3pm''))
        (session_of named_dana (CallSid (said ''Tuesday at 3pm''))))) NAME = Some (JStr [])
   \<and> name (session_of named_dana CA1) = Some (JStr (str ''Dana''))
   \<and> name (session_of (store (voice_handle say_examples parse_examples (ApiReturns (Some TEXT_TIME))
        (said ''Tuesday at 3pm'') named_dana)) CA1) = Some (JStr (str ''Dana''))
   \<and> truthy (JStr (str ''Dana''))"
  using set_fields_truthy [OF named_dana_reachable, of CA1 "ApiReturns (Some TEXT_TIME)"
      "said ''Tuesday at 3pm''"]
    named_dana_reachable
  by (simp add: handle_time_after_dana session_named_dana session_of_upd_same agentReply_examples)
     (simp add: ex_of_def prop_of_def key_defs str_def)

section \<open>The text handed to the parser\<close>

lemma indexOf_from_eq:
  "indexOf_from c t i =
     (if c \<in> set t then int (i + length (takeWhile (\<lambda>x. x \<noteq> c) t)) else - 1)"
  by (induction t arbitrary: i) auto

lemma lastIndexOf_from_eq:
  "lastIndexOf_from c t i found =
     (if c \<in> set t
      then int (i + length t) - 1 - int (length (takeWhile (\<lambda>x. x \<noteq> c) (rev t)))
      else found)"
proof (induction t arbitrary: i found)
  case Nil
  show ?case by simp
next
  case (Cons x xs)
  show ?case
  proof (cases "c \<in> set xs")
    case True
    then have "takeWhile (\<lambda>x. x \<noteq> c) (rev xs @ [x]) = takeWhile (\<lambda>x. x \<noteq> c) (rev xs)"
      by (auto simp add: takeWhile_append1)
    with True show ?thesis
      by (simp add: Cons.IH)
  next
    case False
    have "takeWhile (\<lambda>y. y \<noteq> c) (rev xs @ [c]) = rev xs @ takeWhile (\<lambda>y. y \<noteq> c) [c]"
      using False by (intro takeWhile_append2) auto
    then have tw: "length (takeWhile (\<lambda>y. y \<noteq> c) (rev xs @ [c])) = length xs"
      by simp
    show ?thesis
    proof (cases "x = c")
      case True
      then show ?thesis
        using False tw by (simp add: Cons.IH)
    next
      case neq: False
      then show ?thesis
        using False by (simp add: Cons.IH)
    qed
  qed
qed

lemma indexOf_eq:
  "indexOf t c = (if c \<in> set t then int (length (takeWhile (\<lambda>x. x \<noteq> c) t)) else - 1)"
  by (simp add: indexOf_def indexOf_from_eq)

lemma lastIndexOf_eq:
  "lastIndexOf t c =
     (if c \<in> set t
      then int (length t) - 1 - int (length (takeWhile (\<lambda>x. x \<noteq> c) (rev t)))
      else - 1)"
  by (simp add: lastIndexOf_def lastIndexOf_from_eq)

lemma dropWhile_take:
  "dropWhile P (take m xs) =
     (if length (takeWhile P xs) < m
      then take (m - length (takeWhile P xs)) (drop (length (takeWhile P xs)) xs)
      else [])"
proof (induction xs arbitrary: m)
  case Nil
  show ?case by simp
next
  case (Cons x xs)
  show ?case
    by (cases m) (simp_all add: Cons.IH)
qed

lemma rev_dropWhile_rev:
  "rev (dropWhile P (rev xs)) = take (length xs - length (takeWhile P (rev xs))) xs"
proof -
  have "dropWhile P (rev xs) = drop (length (takeWhile P (rev xs))) (rev xs)"
    by (rule dropWhile_eq_drop)
  then show ?thesis
    by (simp add: rev_drop)
qed

lemma takeWhile_length_less: "c \<in> set xs \<Longrightarrow> length (takeWhile (\<lambda>x. x \<noteq> c) xs) < length xs"
  by (induction xs) auto

lemma slice_between:
  assumes "c \<in> set t" and "d \<in> set t"
  shows "slice t (indexOf t c) (lastIndexOf t d + 1) =
     dropWhile (\<lambda>x. x \<noteq> c) (rev (dropWhile (\<lambda>x. x \<noteq> d) (rev t)))"
proof -
  let ?la = "length (takeWhile (\<lambda>x. x \<noteq> c) t)"
  let ?lr = "length (takeWhile (\<lambda>x. x \<noteq> d) (rev t))"
  have la: "?la < length t"
    using assms(1) by (rule takeWhile_length_less)
  have lr: "?lr < length t"
    using assms(2) takeWhile_length_less [of d "rev t"] by simp
  have a: "indexOf t c = int ?la"
    using assms(1) by (simp add: indexOf_eq)
  have b: "lastIndexOf t d + 1 = int (length t - ?lr)"
    using assms(2) lr by (simp add: lastIndexOf_eq)
  have "slice t (int ?la) (int (length t - ?lr)) =
      (if ?la < length t - ?lr then take (length t - ?lr - ?la) (drop ?la t) else [])"
    using la lr by (simp add: slice_def Let_def min_def nat_diff_distrib' of_nat_diff)
  also have "\<dots> = dropWhile (\<lambda>x. x \<noteq> c) (take (length t - ?lr) t)"
    by (simp add: dropWhile_take)
  also have "\<dots> = dropWhile (\<lambda>x. x \<noteq> c) (rev (dropWhile (\<lambda>x. x \<noteq> d) (rev t)))"
    by (simp add: rev_dropWhile_rev)
  finally show ?thesis
    by (simp add: a b)
qed

lemma candidate_eq:
  "candidate output_text =
     (let text = trim (case output_text of None \<Rightarrow> [] | Some t \<Rightarrow> t)
      in if LBRACE \<in> set text \<and> RBRACE \<in> set text
         then dropWhile (\<lambda>x. x \<noteq> LBRACE) (rev (dropWhile (\<lambda>x. x \<noteq> RBRACE) (rev text)))
         else text)"
proof -
  let ?text = "trim (case output_text of None \<Rightarrow> [] | Some t \<Rightarrow> t)"
  have ge: "0 \<le> indexOf ?text LBRACE \<and> 0 \<le> lastIndexOf ?text RBRACE \<longleftrightarrow>
      LBRACE \<in> set ?text \<and> RBRACE \<in> set ?text"
    using takeWhile_length_less [of RBRACE "rev ?text"]
    by (auto simp add: indexOf_eq lastIndexOf_eq)
  show ?thesis
    unfolding candidate_def Let_def ge
    by (simp add: slice_between)
qed

lemma first_to_last_brace_split:
  "\<exists>pre post. text = pre @ first_to_last_brace text @ post
      \<and> LBRACE \<notin> set pre \<and> RBRACE \<notin> set post"
proof -
  let ?mid = "rev (dropWhile (\<lambda>x. x \<noteq> RBRACE) (rev text))"
  let ?post = "rev (takeWhile (\<lambda>x. x \<noteq> RBRACE) (rev text))"
  let ?pre = "takeWhile (\<lambda>x. x \<noteq> LBRACE) ?mid"
  have "?mid @ ?post =
      rev (takeWhile (\<lambda>x. x \<noteq> RBRACE) (rev text) @ dropWhile (\<lambda>x. x \<noteq> RBRACE) (rev text))"
    by (simp only: rev_append)
  then have t: "text = ?mid @ ?post"
    by simp
  have m: "?mid = ?pre @ first_to_last_brace text"
    by (simp add: first_to_last_brace_def)
  have "text = ?pre @ first_to_last_brace text @ ?post"
    using t m by (metis append_assoc)
  moreover have "LBRACE \<notin> set ?pre"
    by (metis (mono_tags, lifting) set_takeWhileD)
  moreover have "RBRACE \<notin> set ?post"
    by (metis (mono_tags, lifting) set_rev set_takeWhileD)
  ultimately show ?thesis
    by blast
qed

lemma first_to_last_brace_ends:
  assumes "first_to_last_brace text \<noteq> []"
  shows "hd (first_to_last_brace text) = LBRACE \<and> last (first_to_last_brace text) = RBRACE"
proof -
  let ?d = "dropWhile (\<lambda>x. x \<noteq> RBRACE) (rev text)"
  have ne: "?d \<noteq> []"
  proof
    assume "?d = []"
    then have "first_to_last_brace text = dropWhile (\<lambda>x. x \<noteq> LBRACE) (rev [])"
      unfolding first_to_last_brace_def by (rule arg_cong)
    with assms show False
      by simp
  qed
  have "\<not> (hd (first_to_last_brace text) \<noteq> LBRACE)"
    using assms unfolding first_to_last_brace_def by (rule hd_dropWhile)
  moreover have "last (first_to_last_brace text) = last (rev ?d)"
    using assms unfolding first_to_last_brace_def
    by (metis takeWhile_dropWhile_id last_appendR)
  moreover have "last (rev ?d) = hd ?d"
    using ne by (simp add: last_rev)
  moreover have "\<not> (hd ?d \<noteq> RBRACE)"
    using ne by (rule hd_dropWhile)
  ultimately show ?thesis
    by simp
qed

lemma candidate_brace:
  "candidate output_text =
     (let text = trim (case output_text of None \<Rightarrow> [] | Some t \<Rightarrow> t)
      in if LBRACE \<in> set text \<and> RBRACE \<in> set text then first_to_last_brace text else text)"
  by (simp add: candidate_eq first_to_last_brace_def Let_def)

text \<open>
  C9, as the adapter has it. The reply of the extraction service is trimmed. When the
  trimmed text holds both a \<open>{\<close> and a \<open>}\<close>, the adapter parses exactly the substring
  from the first \<open>{\<close> to the last \<open>}\<close>: no \<open>{\<close> comes before it and no \<open>}\<close> after it,
  it starts with \<open>{\<close> and ends with \<open>}\<close> unless it is empty, which it is when the last
  \<open>}\<close> comes before the first \<open>{\<close>. When either brace is absent the adapter parses the
  whole trimmed text instead. In both cases the result is the parsed value, and the
  fallback only when the parse fails; no other substring is tried.
\<close>

theorem json_substring_parsed:
  "agentReply parse (ApiReturns output_text) userText session =
     (let text = trim (case output_text of None \<Rightarrow> [] | Some t \<Rightarrow> t);
          raw = (if LBRACE \<in> set text \<and> RBRACE \<in> set text then first_to_last_brace text
                 else text)
      in case parse raw of None \<Rightarrow> FALLBACK | Some v \<Rightarrow> v)
   \<and> (\<exists>pre post. reply_text = pre @ first_to_last_brace reply_text @ post
         \<and> LBRACE \<notin> set pre \<and> RBRACE \<notin> set post)
   \<and> (first_to_last_brace reply_text \<noteq> [] \<longrightarrow>
         hd (first_to_last_brace reply_text) = LBRACE
         \<and> last (first_to_last_brace reply_text) = RBRACE)"
  using first_to_last_brace_split [of reply_text] first_to_last_brace_ends [of reply_text]
  by (simp add: agentReply_candidate candidate_brace Let_def)

lemma candidate_wrapped: "candidate (Some TEXT_WRAPPED) = TEXT_DANA"
  by (simp add: candidate_def TEXT_WRAPPED_def TEXT_DANA_def string_defs Let_def)

lemma first_to_last_brace_wrapped: "first_to_last_brace (trim TEXT_WRAPPED) = TEXT_DANA"
  by (simp add: first_to_last_brace_def TEXT_WRAPPED_def TEXT_DANA_def string_defs)

theorem json_substring_parsed_witness:
  "first_to_last_brace (trim TEXT_WRAPPED) \<noteq> []
   \<and> first_to_last_brace (trim TEXT_WRAPPED) = TEXT_DANA
   \<and> agentReply parse_examples (ApiReturns (Some TEXT_WRAPPED)) (str ''Dana'')
        \<lparr>turns = 1, name = None, preferred_time = None, booked = False\<rparr> =
      JObj [(SAY, JStr (str ''Thanks, Dana.'')), (EXTRACTED, JObj [(NAME, JStr (str ''Dana''))])]"
proof -
  have a: "agentReply parse_examples (ApiReturns (Some TEXT_WRAPPED)) (str ''Dana'')
        \<lparr>turns = 1, name = None, preferred_time = None, booked = False\<rparr> =
      JObj [(SAY, JStr (str ''Thanks, Dana.'')), (EXTRACTED, JObj [(NAME, JStr (str ''Dana''))])]"
    by (simp add: agentReply_candidate candidate_wrapped parse_examples_values)
  have b: "first_to_last_brace (trim TEXT_WRAPPED) = TEXT_DANA"
    by (rule first_to_last_brace_wrapped)
  have c: "TEXT_DANA \<noteq> []"
    by (simp add: TEXT_DANA_def str_def)
  show ?thesis
    using json_substring_parsed [of parse_examples "Some TEXT_WRAPPED" "str ''Dana''"
      "\<lparr>turns = 1, name = None, preferred_time = None, booked = False\<rparr>" "trim TEXT_WRAPPED"]
      a b c
    by simp
qed

text \<open>
  The claim that a reply without braces is a failure fails: the reply \<open>42\<close> has no
  brace, is parsed as a whole, and the number is returned instead of the fallback.
\<close>

theorem brace_free_reply_parsed_counterexample:
  "LBRACE \<notin> set (trim TEXT_NUMBER) \<and> RBRACE \<notin> set (trim TEXT_NUMBER)
   \<and> agentReply parse_examples (ApiReturns (Some TEXT_NUMBER)) (str ''Dana'')
        \<lparr>turns = 1, name = None, preferred_time = None, booked = False\<rparr> = JNum (Finite 42)
   \<and> JNum (Finite 42) \<noteq> FALLBACK"
  by (simp add: agentReply_examples FALLBACK_def) (simp add: TEXT_NUMBER_def string_defs)

section \<open>The fallback of the extraction call\<close>

text \<open>
  The claim that a parsed object without the spoken reply gives the fallback fails:
  the adapter returns whatever was parsed, here an object with no \<open>say\<close>.
\<close>

theorem missing_say_not_fallback_counterexample:
  "agentReply parse_examples (ApiReturns (Some TEXT_NO_SAY)) (str ''Dana'')
        \<lparr>turns = 1, name = None, preferred_time = None, booked = False\<rparr> =
      JObj [(EXTRACTED, JObj [])]
   \<and> prop_of (JObj [(EXTRACTED, JObj [])]) SAY = None
   \<and> JObj [(EXTRACTED, JObj [])] \<noteq> FALLBACK"
  by (simp add: agentReply_examples FALLBACK_def prop_of_def) (simp add: key_defs str_def)

lemma candidate_empty:
  "trim (case output_text of None \<Rightarrow> [] | Some t \<Rightarrow> t) = [] \<Longrightarrow> candidate output_text = []"
  by (simp add: candidate_eq)

text \<open>
  C6, as the adapter has it. \<open>agentReply\<close> returns the fixed fallback object (a fixed
  line asking again for day and time, and no extracted fields) when the call to the
  service throws, and when \<^verbatim>\<open>JSON.parse\<close> rejects the text it is given, as it does for
  an empty response. It has no other outcome than a value: the whole body is inside
  \<^verbatim>\<open>try\<close>. A text that parses is returned as parsed, whether or not it has a spoken
  reply; the handler covers a missing one with "Okay.".
\<close>

theorem fallback_on_failure:
  "agentReply parse ApiThrows userText session = FALLBACK
   \<and> (parse (candidate output_text) = None \<longrightarrow>
        agentReply parse (ApiReturns output_text) userText session = FALLBACK)
   \<and> (parse [] = None \<and> trim (case output_text of None \<Rightarrow> [] | Some t \<Rightarrow> t) = [] \<longrightarrow>
        agentReply parse (ApiReturns output_text) userText session = FALLBACK)
   \<and> (\<forall>v. parse (candidate output_text) = Some v \<longrightarrow>
        agentReply parse (ApiReturns output_text) userText session = v)
   \<and> prop_of FALLBACK SAY = Some (JStr (str ''Thanks. What day and time works best for you?''))
   \<and> prop_of (ex_of FALLBACK) NAME = None
   \<and> prop_of (ex_of FALLBACK) PREFERRED_TIME = None"
proof -
  have fb: "prop_of FALLBACK SAY = Some (JStr (str ''Thanks. What day and time works best for you?''))"
    "prop_of (ex_of FALLBACK) NAME = None" "prop_of (ex_of FALLBACK) PREFERRED_TIME = None"
    by (simp_all add: FALLBACK_def ex_of_def prop_of_def key_defs str_def)
  have empty: "agentReply parse (ApiReturns output_text) userText session = FALLBACK"
    if "parse [] = None" and "trim (case output_text of None \<Rightarrow> [] | Some t \<Rightarrow> t) = []"
    using that by (simp add: agentReply_candidate candidate_empty)
  show ?thesis
    using fb empty by (simp add: agentReply_throws agentReply_candidate)
qed

lemma candidate_prose: "candidate (Some TEXT_PROSE) = TEXT_PROSE"
  by (simp add: candidate_def TEXT_PROSE_def string_defs Let_def)

lemma parse_prose: "parse_examples TEXT_PROSE = None" "parse_examples [] = None"
  by (simp_all add: parse_examples_def parse_table_def text_defs TEXT_PROSE_def str_def)

theorem fallback_on_failure_witness:
  "parse_examples (candidate (Some TEXT_PROSE)) = None
   \<and> agentReply parse_examples (ApiReturns (Some TEXT_PROSE)) (str ''Dana'')
        \<lparr>turns = 1, name = None, preferred_time = None, booked = False\<rparr> = FALLBACK
   \<and> parse_examples [] = None
   \<and> agentReply parse_examples (ApiReturns None) (str ''Dana'')
        \<lparr>turns = 1, name = None, preferred_time = None, booked = False\<rparr> = FALLBACK
   \<and> parse_examples (candidate (Some TEXT_DANA)) \<noteq> None
   \<and> agentReply parse_examples (ApiReturns (Some TEXT_DANA)) (str ''Dana'')
        \<lparr>turns = 1, name = None, preferred_time = None, booked = False\<rparr> \<noteq> FALLBACK"
  using fallback_on_failure [of parse_examples "str ''Dana''"
      "\<lparr>turns = 1, name = None, preferred_time = None, booked = False\<rparr>" "Some TEXT_PROSE"]
    fallback_on_failure [of parse_examples "str ''Dana''"
      "\<lparr>turns = 1, name = None, preferred_time = None, booked = False\<rparr>" None]
    fallback_on_failure [of parse_examples "str ''Dana''"
      "\<lparr>turns = 1, name = None, preferred_time = None, booked = False\<rparr>" "Some TEXT_DANA"]
  by (simp add: candidate_prose parse_prose candidate_examples parse_examples_values trim_def
        FALLBACK_def)

end
